theory Spec2Isabelle
  imports Complex_Main "HOL-Library.Log_Nat"
begin

section \<open>Helios: the rate-limit engines and the decision gateway\<close>

text \<open>
  A shallow embedding of \<^verbatim>\<open>internal/limiter\<close> (token bucket, basic limiter,
  sliding window, local manager), of the scripted token bucket of
  \<^verbatim>\<open>internal/store/redis.go\<close> and of the admit and quota handlers of
  \<^verbatim>\<open>internal/gateway/server.go\<close>.

  Conventions of the embedding.
  \<^item> A \<^verbatim>\<open>time.Time\<close> is an integer counting nanoseconds (its range is far
    wider than 64 bits of nanoseconds); a \<^verbatim>\<open>time.Duration\<close> is a 64-bit count
    of nanoseconds, whose multiplication wraps around and whose \<^verbatim>\<open>Sub\<close>
    saturates. Every \<^verbatim>\<open>time.Now()\<close> of the source is a parameter \<open>now\<close>.
  \<^item> A \<^verbatim>\<open>float64\<close> is a real number with at most 53 significant bits; every
    floating-point operation is the exact operation followed by rounding to
    the nearest such number, ties to even (\<open>float64\<close> below), one rounding
    per operation as on amd64. The exponent is not bounded: with 64-bit
    integer inputs no value of these programs reaches the overflow or the
    subnormal range, and no divisor is zero.
  \<^item> \<^verbatim>\<open>int64\<close> values are integers; where the source's integer arithmetic
    can overflow it wraps around explicitly (\<open>int64\<close> below).
  \<^item> The mutex of each engine serialises the calls, so an engine is a state
    passed through its calls.
\<close>

subsection \<open>64-bit integers\<close>

text \<open>Two's-complement wrap-around of a 64-bit signed integer.\<close>

definition int64 :: "int \<Rightarrow> int" where
  "int64 x = (x + 9223372036854775808) mod 18446744073709551616 - 9223372036854775808"

definition in_int64 :: "int \<Rightarrow> bool" where
  "in_int64 x = (- 9223372036854775808 \<le> x \<and> x < 9223372036854775808)"

text \<open>Go's integer division and remainder truncate toward zero.\<close>

definition go_quot :: "int \<Rightarrow> int \<Rightarrow> int" where
  "go_quot a b = sgn a * sgn b * (\<bar>a\<bar> div \<bar>b\<bar>)"

definition go_rem :: "int \<Rightarrow> int \<Rightarrow> int" where
  "go_rem a b = a - b * go_quot a b"

subsection \<open>Floating point\<close>

text \<open>
  The binary exponent of a positive real: the \<open>e\<close> with
  \<open>2 ^ e \<le> x < 2 ^ (e + 1)\<close>.
\<close>

definition float_exp :: "real \<Rightarrow> int" where
  "float_exp x =
     (if 1 \<le> x then bitlen \<lfloor>x\<rfloor> - 1
      else (let k = bitlen \<lfloor>1 / x\<rfloor> - 1
            in if x * 2 powi k = 1 then - k else - k - 1))"

text \<open>Rounding to the nearest integer, ties to the even one.\<close>

definition rne :: "real \<Rightarrow> int" where
  "rne y =
     (let f = \<lfloor>y\<rfloor>; d = y - real_of_int f
      in if d < 1 / 2 then f
         else if 1 / 2 < d then f + 1
         else if even f then f else f + 1)"

definition round_pos :: "real \<Rightarrow> real" where
  "round_pos x =
     real_of_int (rne (x * 2 powi (52 - float_exp x))) * 2 powi (float_exp x - 52)"

text \<open>The nearest \<^verbatim>\<open>float64\<close> of a real number.\<close>

definition float64 :: "real \<Rightarrow> real" where
  "float64 x = (if x = 0 then 0 else if 0 < x then round_pos x else - round_pos (- x))"

definition fadd :: "real \<Rightarrow> real \<Rightarrow> real" where
  "fadd a b = float64 (a + b)"

definition fsub :: "real \<Rightarrow> real \<Rightarrow> real" where
  "fsub a b = float64 (a - b)"

definition fmul :: "real \<Rightarrow> real \<Rightarrow> real" where
  "fmul a b = float64 (a * b)"

definition fdiv :: "real \<Rightarrow> real \<Rightarrow> real" where
  "fdiv a b = float64 (a / b)"

text \<open>\<^verbatim>\<open>float64(n)\<close> of an integer.\<close>

definition float64_of_int :: "int \<Rightarrow> real" where
  "float64_of_int n = float64 (real_of_int n)"

text \<open>The reals that are \<^verbatim>\<open>float64\<close> values: a 53-bit integer times a power of two.\<close>

definition is_float :: "real \<Rightarrow> bool" where
  "is_float x = (\<exists>m k. \<bar>m\<bar> \<le> 9007199254740992 \<and> x = real_of_int m * 2 powi k)"

text \<open>
  Go's conversion \<^verbatim>\<open>int64(f)\<close> of a float discards the fraction (rounds toward
  zero); a value outside the 64-bit range converts, on amd64, to the smallest
  64-bit integer.
\<close>

definition int64_of_float :: "real \<Rightarrow> int" where
  "int64_of_float x =
     (let t = (if 0 \<le> x then \<lfloor>x\<rfloor> else \<lceil>x\<rceil>)
      in if in_int64 t then t else - 9223372036854775808)"

subsection \<open>Time\<close>

type_synonym Time = int
type_synonym Duration = int

definition Second :: Duration where
  "Second = 1000000000"

definition Minute :: Duration where
  "Minute = 60 * Second"

text \<open>\<^verbatim>\<open>t.Sub(u)\<close>: the difference, saturated at the largest and smallest duration.\<close>

definition Sub :: "Time \<Rightarrow> Time \<Rightarrow> Duration" where
  "Sub t u =
     (if t - u > 9223372036854775807 then 9223372036854775807
      else if t - u < - 9223372036854775808 then - 9223372036854775808
      else t - u)"

text \<open>
  \<^verbatim>\<open>Duration.Seconds()\<close>: \<^verbatim>\<open>float64(d / Second) + float64(d % Second) / 1e9\<close>.
\<close>

definition Seconds :: "Duration \<Rightarrow> real" where
  "Seconds d =
     fadd (float64_of_int (go_quot d Second))
          (fdiv (float64_of_int (go_rem d Second)) 1000000000)"

text \<open>\<^verbatim>\<open>time.Duration(f) * time.Second\<close>: conversion, then a 64-bit multiplication.\<close>

definition whole_seconds :: "real \<Rightarrow> Duration" where
  "whole_seconds f = int64 (int64_of_float f * Second)"

subsection \<open>Configuration and results (\<^verbatim>\<open>limiter.Config\<close>, \<^verbatim>\<open>limiter.Result\<close>)\<close>

type_synonym Algorithm = string

definition AlgoTokenBucket :: Algorithm where
  "AlgoTokenBucket = ''token_bucket''"

definition AlgoSlidingWindow :: Algorithm where
  "AlgoSlidingWindow = ''sliding_window''"

record Config =
  Limit :: int
  Burst :: int
  Window :: Duration
  Algorithm :: Algorithm

record Result =
  Allowed :: bool
  Remaining :: int
  ResultLimit :: int
  ResetTime :: Time
  RetryAfterSeconds :: int

text \<open>The defaulting prologue shared by every local engine.\<close>

definition eff_window :: "Config \<Rightarrow> Duration" where
  "eff_window cfg = (if Window cfg \<le> 0 then Minute else Window cfg)"

definition eff_limit :: "Config \<Rightarrow> int" where
  "eff_limit cfg = (if Limit cfg \<le> 0 then 100 else Limit cfg)"

definition eff_burst :: "Config \<Rightarrow> int" where
  "eff_burst cfg = (if Burst cfg \<le> 0 then eff_limit cfg else Burst cfg)"

definition refillPerSec :: "Config \<Rightarrow> real" where
  "refillPerSec cfg = fdiv (float64_of_int (eff_limit cfg)) (Seconds (eff_window cfg))"

subsection \<open>The in-memory token bucket (\<^verbatim>\<open>TokenBucketLimiter\<close>)\<close>

record tokenBucket =
  tokens :: real
  lastRefill :: Time

type_synonym tb_state = "string \<rightharpoonup> tokenBucket"

text \<open>\<^verbatim>\<open>min\<close> of limiter.go and \<^verbatim>\<open>minFloat\<close> of basic_limiter.go.\<close>

definition minFloat :: "real \<Rightarrow> real \<Rightarrow> real" where
  "minFloat a b = (if a < b then a else b)"

text \<open>
  Lookup or lazy creation of the bucket, followed by the refill: the part of
  \<^verbatim>\<open>Allow\<close> and \<^verbatim>\<open>GetQuota\<close> up to \<^verbatim>\<open>bucket.lastRefill = now\<close>.
\<close>

definition refill :: "Config \<Rightarrow> Time \<Rightarrow> tokenBucket option \<Rightarrow> tokenBucket" where
  "refill cfg now entry =
     (let bucket = (case entry of
                      None \<Rightarrow> \<lparr>tokens = float64_of_int (eff_burst cfg), lastRefill = now\<rparr>
                    | Some b \<Rightarrow> b);
          elapsed = Seconds (Sub now (lastRefill bucket))
      in \<lparr>tokens = minFloat (float64_of_int (eff_burst cfg))
                       (fadd (tokens bucket) (fmul elapsed (refillPerSec cfg))),
          lastRefill = now\<rparr>)"

definition consume :: "tokenBucket \<Rightarrow> int \<Rightarrow> tokenBucket" where
  "consume bucket cost =
     (if tokens bucket \<ge> float64_of_int cost
      then bucket\<lparr>tokens := fsub (tokens bucket) (float64_of_int cost)\<rparr>
      else bucket)"

definition TokenBucketLimiter_Allow ::
  "Config \<Rightarrow> tb_state \<Rightarrow> Time \<Rightarrow> string \<Rightarrow> int \<Rightarrow> Result \<times> tb_state" where
  "TokenBucketLimiter_Allow cfg st now key cost =
     (let refilled = refill cfg now (st key);
          costFloat = float64_of_int cost;
          allowed = (tokens refilled \<ge> costFloat);
          bucket = consume refilled cost;
          remaining = int64_of_float (tokens bucket);
          resetTime = now + whole_seconds (fdiv (fsub costFloat (tokens bucket)) (refillPerSec cfg))
      in (\<lparr>Allowed = allowed,
           Remaining = remaining,
           ResultLimit = eff_limit cfg,
           ResetTime = resetTime,
           RetryAfterSeconds =
             (if allowed then 0 else int64_of_float (Seconds (Sub resetTime now)))\<rparr>,
          st(key \<mapsto> bucket)))"

definition TokenBucketLimiter_GetQuota ::
  "Config \<Rightarrow> tb_state \<Rightarrow> Time \<Rightarrow> string \<Rightarrow> Result \<times> tb_state" where
  "TokenBucketLimiter_GetQuota cfg st now key =
     (let bucket = refill cfg now (st key);
          remaining = int64_of_float (tokens bucket);
          resetTime = now + whole_seconds
                        (fdiv (fsub (float64_of_int (eff_limit cfg)) (tokens bucket))
                              (refillPerSec cfg))
      in (\<lparr>Allowed = True,
           Remaining = remaining,
           ResultLimit = eff_limit cfg,
           ResetTime = resetTime,
           RetryAfterSeconds = 0\<rparr>,
          st(key \<mapsto> bucket)))"

subsection \<open>The basic limiter (\<^verbatim>\<open>basicLimiter\<close>)\<close>

text \<open>
  Its \<^verbatim>\<open>bucket\<close> struct has the fields of \<^verbatim>\<open>tokenBucket\<close>; the model shares the
  record. An empty key is served under the tenant \<^verbatim>\<open>"default"\<close>.
\<close>

definition basic_tenant :: "string \<Rightarrow> string" where
  "basic_tenant key = (if key = [] then ''default'' else key)"

definition basicLimiter_Allow ::
  "Config \<Rightarrow> tb_state \<Rightarrow> Time \<Rightarrow> string \<Rightarrow> int \<Rightarrow> Result \<times> tb_state" where
  "basicLimiter_Allow cfg st now key cost =
     (let tenant = basic_tenant key;
          refilled = refill cfg now (st tenant);
          need = float64_of_int cost;
          allowed = (tokens refilled \<ge> need);
          bkt = consume refilled cost;
          remaining = int64_of_float (tokens bkt);
          reset = now + whole_seconds
                    (fdiv (fsub (float64_of_int (eff_limit cfg)) (tokens bkt)) (refillPerSec cfg))
      in (\<lparr>Allowed = allowed,
           Remaining = remaining,
           ResultLimit = eff_limit cfg,
           ResetTime = reset,
           RetryAfterSeconds =
             (if allowed then 0 else int64_of_float (Seconds (Sub reset now)))\<rparr>,
          st(tenant \<mapsto> bkt)))"

definition basicLimiter_GetQuota ::
  "Config \<Rightarrow> tb_state \<Rightarrow> Time \<Rightarrow> string \<Rightarrow> Result \<times> tb_state" where
  "basicLimiter_GetQuota cfg st now key =
     (let tenant = basic_tenant key;
          bkt = refill cfg now (st tenant);
          remaining = int64_of_float (tokens bkt);
          reset = now + whole_seconds
                    (fdiv (fsub (float64_of_int (eff_limit cfg)) (tokens bkt)) (refillPerSec cfg))
      in (\<lparr>Allowed = True,
           Remaining = remaining,
           ResultLimit = eff_limit cfg,
           ResetTime = reset,
           RetryAfterSeconds = 0\<rparr>,
          st(tenant \<mapsto> bkt)))"

subsection \<open>The in-memory sliding window (\<^verbatim>\<open>SlidingWindowLimiter\<close>)\<close>

record slidingWindow =
  requests :: "Time list"

type_synonym sw_state = "string \<rightharpoonup> slidingWindow"

definition maxInt64 :: "int \<Rightarrow> int \<Rightarrow> int" where
  "maxInt64 a b = (if a > b then a else b)"

text \<open>The loop keeping the requests with \<^verbatim>\<open>reqTime.After(windowStart)\<close>.\<close>

definition validRequests :: "Time \<Rightarrow> Time list \<Rightarrow> Time list" where
  "validRequests windowStart rs = filter (\<lambda>reqTime. windowStart < reqTime) rs"

definition SlidingWindowLimiter_Allow ::
  "Config \<Rightarrow> sw_state \<Rightarrow> Time \<Rightarrow> string \<Rightarrow> int \<Rightarrow> Result \<times> sw_state" where
  "SlidingWindowLimiter_Allow cfg st now key cost =
     (let window = eff_window cfg;
          limit = eff_limit cfg;
          windowStart = now - window;
          w = (case st key of None \<Rightarrow> \<lparr>requests = []\<rparr> | Some w0 \<Rightarrow> w0);
          valid = validRequests windowStart (requests w);
          currentCount = int (length valid)
      in if int64 (currentCount + cost) > limit
         then
           (let resetTime = (case valid of [] \<Rightarrow> now + window | oldest # _ \<Rightarrow> oldest + window);
                remaining = maxInt64 0 (int64 (limit - currentCount));
                retryAfter = int64_of_float (Seconds (Sub resetTime now))
            in (\<lparr>Allowed = False,
                 Remaining = remaining,
                 ResultLimit = limit,
                 ResetTime = resetTime,
                 RetryAfterSeconds = retryAfter\<rparr>,
                st(key \<mapsto> \<lparr>requests = valid\<rparr>)))
         else
           (\<lparr>Allowed = True,
             Remaining = int64 (int64 (limit - currentCount) - cost),
             ResultLimit = limit,
             ResetTime = now + window,
             RetryAfterSeconds = 0\<rparr>,
            st(key \<mapsto> \<lparr>requests = valid @ replicate (nat cost) now\<rparr>)))"

subsection \<open>The \<^verbatim>\<open>Limiter\<close> interface and the local manager\<close>

text \<open>
  An engine is its configuration together with its per-key state. The error
  that \<^verbatim>\<open>Allow\<close> returns beside the result is \<^verbatim>\<open>nil\<close> in every local engine.
\<close>

datatype Limiter =
    TokenBucketLimiter Config tb_state
  | SlidingWindowLimiter Config sw_state
  | basicLimiter Config tb_state

type_synonym error = string

fun Limiter_Allow ::
  "Limiter \<Rightarrow> Time \<Rightarrow> string \<Rightarrow> int \<Rightarrow> (Result \<times> error option) \<times> Limiter" where
  "Limiter_Allow (TokenBucketLimiter c st) now key cost =
     (let (res, st') = TokenBucketLimiter_Allow c st now key cost
      in ((res, None), TokenBucketLimiter c st'))"
| "Limiter_Allow (SlidingWindowLimiter c st) now key cost =
     (let (res, st') = SlidingWindowLimiter_Allow c st now key cost
      in ((res, None), SlidingWindowLimiter c st'))"
| "Limiter_Allow (basicLimiter c st) now key cost =
     (let (res, st') = basicLimiter_Allow c st now key cost
      in ((res, None), basicLimiter c st'))"

definition NewTokenBucketLimiter :: "Config \<Rightarrow> Limiter" where
  "NewTokenBucketLimiter c = TokenBucketLimiter c Map.empty"

definition NewSlidingWindowLimiter :: "Config \<Rightarrow> Limiter" where
  "NewSlidingWindowLimiter c = SlidingWindowLimiter c Map.empty"

definition NewBasicLimiter :: "Config \<Rightarrow> Limiter" where
  "NewBasicLimiter c = basicLimiter c Map.empty"

record LocalManager =
  mgr_limiter :: Limiter
  mgr_cfg :: Config

definition NewLocalManager :: "Config \<Rightarrow> LocalManager" where
  "NewLocalManager defaultCfg =
     \<lparr>mgr_limiter =
        (if Algorithm defaultCfg = AlgoSlidingWindow
         then NewSlidingWindowLimiter defaultCfg
         else NewTokenBucketLimiter defaultCfg),
      mgr_cfg = defaultCfg\<rparr>"

definition ForTenant :: "LocalManager \<Rightarrow> string \<Rightarrow> Limiter" where
  "ForTenant m tenant = mgr_limiter m"

definition GetLimiter :: "LocalManager \<Rightarrow> string \<Rightarrow> string \<Rightarrow> Limiter \<times> error option" where
  "GetLimiter m tenant resource = (mgr_limiter m, None)"

subsection \<open>The scripted token bucket of the shared store (\<^verbatim>\<open>Client.TokenBucketAllow\<close>)\<close>

text \<open>
  The Redis hash under one key: the two fields the script reads with
  \<^verbatim>\<open>HMGET\<close> (absent on a fresh key) and the expiry it sets. Lua numbers are
  \<^verbatim>\<open>float64\<close> values, written to the hash and read back without loss; the
  arguments arrive as decimal integers and \<^verbatim>\<open>tonumber\<close> converts them. The
  reply is the table the script returns.
\<close>

record bucket_hash =
  hash_tokens :: "real option"
  hash_last_refill :: "real option"
  hash_expire :: "real option"

definition TokenBucketAllow_script ::
  "bucket_hash \<Rightarrow> int \<Rightarrow> int \<Rightarrow> int \<Rightarrow> int \<Rightarrow> int \<Rightarrow> (int \<times> real \<times> real) \<times> bucket_hash" where
  "TokenBucketAllow_script h now_ms limit_arg window_arg cost_arg burst_arg =
     (let now = float64_of_int now_ms;
          limit = float64_of_int limit_arg;
          window = float64_of_int window_arg;
          cost = float64_of_int cost_arg;
          burst = float64_of_int burst_arg;
          tokens0 = (case hash_tokens h of Some t \<Rightarrow> t | None \<Rightarrow> burst);
          last_refill = (case hash_last_refill h of Some t \<Rightarrow> t | None \<Rightarrow> now);
          elapsed = fdiv (fsub now last_refill) 1000;
          tokens_to_add = fdiv (fmul elapsed limit) window;
          tokens1 = min (fadd tokens0 tokens_to_add) burst
      in if tokens1 \<ge> cost
         then ((1, fsub tokens1 cost, fadd now (fmul window 1000)),
               \<lparr>hash_tokens = Some (fsub tokens1 cost), hash_last_refill = Some now,
                hash_expire = Some (fmul window 2)\<rparr>)
         else
           (let tokens_needed = fsub cost tokens1;
                retry_after = real_of_int \<lceil>fdiv (fmul tokens_needed window) limit\<rceil>
            in ((0, tokens1, fadd now (fmul retry_after 1000)),
                \<lparr>hash_tokens = Some tokens1, hash_last_refill = Some now,
                 hash_expire = Some (fmul window 2)\<rparr>)))"

subsection \<open>The shared-store client as the gateway sees it (\<^verbatim>\<open>internal/store\<close>)\<close>

text \<open>
  The gateway only constructs, pings and closes the client. Whether the store
  answers is a fact of the environment, kept in the client; the stub of
  \<^verbatim>\<open>nop.go\<close> is the client whose ping always succeeds. In both variants of the
  package \<^verbatim>\<open>NewClientFromEnv\<close> returns a client and a \<^verbatim>\<open>nil\<close> error.
\<close>

record Client =
  reachable :: bool

definition NewClientFromEnv :: "bool \<Rightarrow> error + Client" where
  "NewClientFromEnv store_up = Inr \<lparr>reachable = store_up\<rparr>"

definition Ping :: "Client \<Rightarrow> error option" where
  "Ping c = (if reachable c then None else Some ''connection refused'')"

subsection \<open>The decision gateway (\<^verbatim>\<open>internal/gateway/server.go\<close>)\<close>

text \<open>
  A request as the handlers read it: \<^verbatim>\<open>c.Query\<close>, \<^verbatim>\<open>c.Param\<close> and
  \<^verbatim>\<open>c.GetHeader\<close> return the empty string for an absent parameter.
\<close>

record Request =
  param_tenant :: string
  header_api_key :: string
  query_api_key :: string
  query_resource :: string
  query_cost :: string

datatype Header =
    X_RateLimit_Limit int
  | X_RateLimit_Remaining int
  | X_RateLimit_Reset int
  | X_Helios_Mode string
  | Retry_After int

datatype Body =
    ErrorBody string
  | DeniedBody int
  | AllowedBody int int int
  | QuotaBody int int int

record Response =
  status :: nat
  headers :: "Header list"
  body :: Body

definition StatusOK :: nat where "StatusOK = 200"
definition StatusBadRequest :: nat where "StatusBadRequest = 400"
definition StatusUnauthorized :: nat where "StatusUnauthorized = 401"
definition StatusForbidden :: nat where "StatusForbidden = 403"
definition StatusTooManyRequests :: nat where "StatusTooManyRequests = 429"
definition StatusInternalServerError :: nat where "StatusInternalServerError = 500"

record Server =
  ConsistencyMode :: string
  redisStore :: "Client option"
  limiterMgr :: LocalManager
  reqTotal :: nat
  reqAllowed :: nat
  reqDenied :: nat

text \<open>\<^verbatim>\<open>atomic.AddUint64(&counter, 1)\<close>.\<close>

definition AddUint64_1 :: "nat \<Rightarrow> nat" where
  "AddUint64_1 n = (n + 1) mod 18446744073709551616"

text \<open>
  \<^verbatim>\<open>strconv.Atoi\<close> of the Go library: an optional sign, then one or more decimal
  digits, within the range of a 64-bit \<^verbatim>\<open>int\<close>; anything else is an error.
\<close>

definition is_digit :: "char \<Rightarrow> bool" where
  "is_digit c = (48 \<le> (of_char c :: nat) \<and> (of_char c :: nat) \<le> 57)"

definition digits_value :: "string \<Rightarrow> int" where
  "digits_value ds = foldl (\<lambda>acc c. 10 * acc + (int (of_char c) - 48)) 0 ds"

definition Atoi :: "string \<Rightarrow> int option" where
  "Atoi s =
     (let neg = (case s of [] \<Rightarrow> False | c # _ \<Rightarrow> c = CHR ''-'');
          ds = (case s of [] \<Rightarrow> []
                | c # r \<Rightarrow> if c = CHR ''-'' \<or> c = CHR ''+'' then r else s)
      in if ds = [] then None
         else if list_all is_digit ds
         then (let v = (if neg then - digits_value ds else digits_value ds)
               in if in_int64 v then Some v else None)
         else None)"

text \<open>The demo policy of \<^verbatim>\<open>NewServer\<close> and the server it builds.\<close>

definition demo_policy :: Config where
  "demo_policy = \<lparr>Limit = 100, Burst = 100, Window = Minute, Algorithm = AlgoTokenBucket\<rparr>"

definition server_with :: "string \<Rightarrow> Client option \<Rightarrow> Server" where
  "server_with mode store =
     \<lparr>ConsistencyMode = mode,
      redisStore = store,
      limiterMgr = NewLocalManager demo_policy,
      reqTotal = 0, reqAllowed = 0, reqDenied = 0\<rparr>"

definition NewServer :: "string \<Rightarrow> bool \<Rightarrow> error + Server" where
  "NewServer mode store_up =
     (if mode = ''strong''
      then (case NewClientFromEnv store_up of
              Inl e \<Rightarrow> Inl (''failed to create Redis client: '' @ e)
            | Inr c \<Rightarrow> Inr (server_with mode (Some c)))
      else Inr (server_with mode None))"

text \<open>The API key of a request: the header, else the query parameter.\<close>

definition request_api_key :: "Request \<Rightarrow> string" where
  "request_api_key req =
     (if header_api_key req = [] then query_api_key req else header_api_key req)"

definition demo_key :: "string \<Rightarrow> bool" where
  "demo_key apiKey = (apiKey = ''test-key'' \<or> apiKey = ''demo-key'' \<or> apiKey = ''admin-key'')"

definition request_resource :: "Request \<Rightarrow> string" where
  "request_resource req = (if query_resource req = [] then ''default'' else query_resource req)"

text \<open>\<^verbatim>\<open>fmt.Sprintf("%s:%s:%s", tenant, resource, apiKey)\<close>.\<close>

definition decision_key :: "string \<Rightarrow> string \<Rightarrow> string \<Rightarrow> string" where
  "decision_key tenant resource apiKey = tenant @ '':'' @ resource @ '':'' @ apiKey"

text \<open>
  The cost of a request: 1 when the parameter is absent, the parsed number when
  it is a positive integer, and no cost (the handler answers 400) otherwise.
\<close>

definition parse_cost :: "string \<Rightarrow> int option" where
  "parse_cost costStr =
     (if costStr = [] then Some 1
      else (case Atoi costStr of
              None \<Rightarrow> None
            | Some n \<Rightarrow> if n > 0 then Some n else None))"

definition error_response :: "nat \<Rightarrow> string \<Rightarrow> Response" where
  "error_response code msg = \<lparr>status = code, headers = [], body = ErrorBody msg\<rparr>"

text \<open>
  \<^verbatim>\<open>handleAllow\<close>. \<open>now\<close> is the clock the engine reads, \<open>until_now\<close> the later
  clock of \<^verbatim>\<open>time.Until\<close>. The server returned carries the engine and the
  counters as the handler leaves them.
\<close>

definition handleAllow :: "Server \<Rightarrow> Time \<Rightarrow> Time \<Rightarrow> Request \<Rightarrow> Response \<times> Server" where
  "handleAllow s now until_now req =
     (let tenant = param_tenant req; apiKey = request_api_key req in
      if tenant = [] then (error_response StatusBadRequest ''tenant parameter is required'', s)
      else if apiKey = [] then (error_response StatusUnauthorized ''API key required'', s)
      else if demo_key apiKey then
        (case parse_cost (query_cost req) of
           None \<Rightarrow> (error_response StatusBadRequest ''invalid cost parameter'', s)
         | Some cost \<Rightarrow>
            (let rl = ForTenant (limiterMgr s) tenant;
                 key = decision_key tenant (request_resource req) apiKey;
                 ((res, err), rl') = Limiter_Allow rl now key cost;
                 s' = s\<lparr>limiterMgr := (limiterMgr s)\<lparr>mgr_limiter := rl'\<rparr>,
                        reqTotal := AddUint64_1 (reqTotal s),
                        reqAllowed := (if Allowed res then AddUint64_1 (reqAllowed s)
                                       else reqAllowed s),
                        reqDenied := (if Allowed res then reqDenied s
                                      else AddUint64_1 (reqDenied s))\<rparr>;
                 hs = [X_RateLimit_Limit (ResultLimit res),
                       X_RateLimit_Remaining (Remaining res),
                       X_RateLimit_Reset (ResetTime res div Second),
                       X_Helios_Mode (ConsistencyMode s)]
             in if err = None then
                  (if Allowed res
                   then (\<lparr>status = StatusOK, headers = hs,
                          body = AllowedBody (Remaining res) (ResultLimit res)
                                   (ResetTime res div Second)\<rparr>, s')
                   else
                     (let retryAfter = max 0 (int64_of_float (Seconds (Sub (ResetTime res) until_now)))
                      in (\<lparr>status = StatusTooManyRequests,
                           headers = hs @ [Retry_After retryAfter],
                           body = DeniedBody retryAfter\<rparr>, s')))
                else (error_response StatusInternalServerError ''internal server error'', s')))
      else (error_response StatusUnauthorized ''Invalid API key'', s))"

text \<open>\<^verbatim>\<open>handleQuota\<close>: the same checks, then an admit of cost 0.\<close>

definition handleQuota :: "Server \<Rightarrow> Time \<Rightarrow> Request \<Rightarrow> Response \<times> Server" where
  "handleQuota s now req =
     (let tenant = param_tenant req; apiKey = request_api_key req in
      if tenant = [] then (error_response StatusBadRequest ''tenant parameter is required'', s)
      else if apiKey = [] then (error_response StatusUnauthorized ''API key required'', s)
      else if demo_key apiKey then
        (let rl = ForTenant (limiterMgr s) tenant;
             ident = decision_key tenant (request_resource req) apiKey;
             ((res, err), rl') = Limiter_Allow rl now ident 0;
             s' = s\<lparr>limiterMgr := (limiterMgr s)\<lparr>mgr_limiter := rl'\<rparr>\<rparr>
         in if err = None
            then (\<lparr>status = StatusOK, headers = [],
                   body = QuotaBody (Remaining res) (ResultLimit res)
                            (ResetTime res div Second)\<rparr>, s')
            else (error_response StatusInternalServerError ''internal server error'', s'))
      else (error_response StatusUnauthorized ''Invalid API key'', s))"

subsection \<open>Observations on engines\<close>

fun engine_config :: "Limiter \<Rightarrow> Config" where
  "engine_config (TokenBucketLimiter c st) = c"
| "engine_config (SlidingWindowLimiter c st) = c"
| "engine_config (basicLimiter c st) = c"

fun engine_algorithm :: "Limiter \<Rightarrow> Algorithm" where
  "engine_algorithm (TokenBucketLimiter c st) = AlgoTokenBucket"
| "engine_algorithm (SlidingWindowLimiter c st) = AlgoSlidingWindow"
| "engine_algorithm (basicLimiter c st) = AlgoTokenBucket"

subsection \<open>Sample requests and policies for the concrete evaluations\<close>

text \<open>A GET request carrying its API key in the \<^verbatim>\<open>X-API-Key\<close> header.\<close>

definition get_request :: "string \<Rightarrow> string \<Rightarrow> string \<Rightarrow> string \<Rightarrow> Request" where
  "get_request tenant resource apiKey costStr =
     \<lparr>param_tenant = tenant, header_api_key = apiKey, query_api_key = [],
      query_resource = resource, query_cost = costStr\<rparr>"

text \<open>The policy of the scenarios S1 to S3: limit 5, window 60 s, burst 5.\<close>

definition policy5 :: Config where
  "policy5 = \<lparr>Limit = 5, Burst = 5, Window = Minute, Algorithm = AlgoTokenBucket\<rparr>"

subsection \<open>The specification's formulas, in its own words\<close>

text \<open>
  Section 4.2.1 of the specification: \<open>r = limit / window_s\<close>,
  \<open>B = max(burst, limit)\<close>, \<open>reset_at = now + \<lceil>(B - tokens) / r\<rceil> s\<close> and
  \<open>retry_after_s = \<lceil>(c - tokens) / r\<rceil>\<close>. These are compared with the code
  below; they are not part of it.
\<close>

definition spec_rate :: "Config \<Rightarrow> real" where
  "spec_rate cfg = real_of_int (Limit cfg) / (real_of_int (Window cfg) / 1000000000)"

definition spec_reset_at :: "Config \<Rightarrow> Time \<Rightarrow> real \<Rightarrow> Time" where
  "spec_reset_at cfg now toks =
     now + \<lceil>(real_of_int (max (Burst cfg) (Limit cfg)) - toks) / spec_rate cfg\<rceil> * Second"

definition spec_retry_after :: "Config \<Rightarrow> int \<Rightarrow> real \<Rightarrow> int" where
  "spec_retry_after cfg c toks = \<lceil>(real_of_int c - toks) / spec_rate cfg\<rceil>"

subsection \<open>Sequences of token-bucket operations\<close>

datatype tb_op = Admit string int | Quota string

fun op_key :: "tb_op \<Rightarrow> string" where
  "op_key (Admit key cost) = key"
| "op_key (Quota key) = key"

fun tb_apply :: "Config \<Rightarrow> tb_state \<Rightarrow> Time \<times> tb_op \<Rightarrow> tb_state" where
  "tb_apply cfg st (now, Admit key cost) = snd (TokenBucketLimiter_Allow cfg st now key cost)"
| "tb_apply cfg st (now, Quota key) = snd (TokenBucketLimiter_GetQuota cfg st now key)"

text \<open>The state after each operation of a sequence, in order.\<close>

fun tb_states :: "Config \<Rightarrow> tb_state \<Rightarrow> (Time \<times> tb_op) list \<Rightarrow> tb_state list" where
  "tb_states cfg st [] = []"
| "tb_states cfg st (x # xs) = tb_apply cfg st x # tb_states cfg (tb_apply cfg st x) xs"

definition tb_run :: "Config \<Rightarrow> tb_state \<Rightarrow> (Time \<times> tb_op) list \<Rightarrow> tb_state" where
  "tb_run cfg st ops = foldl (tb_apply cfg) st ops"

text \<open>
  The invariant of one bucket at clock \<open>now\<close>, and of a whole engine state.
\<close>

definition bucket_ok :: "Config \<Rightarrow> Time \<Rightarrow> tokenBucket \<Rightarrow> bool" where
  "bucket_ok cfg now b =
     (0 \<le> tokens b \<and> tokens b \<le> real_of_int (eff_burst cfg) \<and> lastRefill b \<le> now)"

definition tb_inv :: "Config \<Rightarrow> Time \<Rightarrow> tb_state \<Rightarrow> bool" where
  "tb_inv cfg now st = (\<forall>key b. st key = Some b \<longrightarrow> bucket_ok cfg now b)"

text \<open>
  A sequence the engine can see: the clock never runs backwards (each
  \<^verbatim>\<open>time.Now()\<close> is read under the engine's mutex and compared on Go's
  monotonic clock) and no admit has a negative cost.
\<close>

fun op_cost_ok :: "tb_op \<Rightarrow> bool" where
  "op_cost_ok (Admit key cost) = (0 \<le> cost)"
| "op_cost_ok (Quota key) = True"

fun timed_ok :: "Time \<Rightarrow> (Time \<times> tb_op) list \<Rightarrow> bool" where
  "timed_ok t [] = True"
| "timed_ok t ((now, x) # rest) = (t \<le> now \<and> op_cost_ok x \<and> timed_ok now rest)"

text \<open>The successive values of \<open>last_refill\<close> of one key along a list of states.\<close>

fun refill_history :: "string \<Rightarrow> tb_state list \<Rightarrow> Time list" where
  "refill_history key [] = []"
| "refill_history key (st # sts) =
     (case st key of
        None \<Rightarrow> refill_history key sts
      | Some b \<Rightarrow> lastRefill b # refill_history key sts)"

text \<open>The stored fields of the scripted bucket within their bounds.\<close>

definition hash_ok :: "bucket_hash \<Rightarrow> int \<Rightarrow> int \<Rightarrow> bool" where
  "hash_ok h now_ms burst_arg =
     ((case hash_tokens h of None \<Rightarrow> True
       | Some t \<Rightarrow> 0 \<le> t \<and> t \<le> real_of_int burst_arg)
      \<and> (case hash_last_refill h of None \<Rightarrow> True | Some t \<Rightarrow> t \<le> real_of_int now_ms))"

subsection \<open>Sequences of calls of the script on one key\<close>

fun script_states ::
  "int \<Rightarrow> int \<Rightarrow> int \<Rightarrow> bucket_hash \<Rightarrow> (int \<times> int) list \<Rightarrow> bucket_hash list" where
  "script_states limit_arg window_arg burst_arg h [] = []"
| "script_states limit_arg window_arg burst_arg h ((now_ms, cost_arg) # rest) =
     snd (TokenBucketAllow_script h now_ms limit_arg window_arg cost_arg burst_arg)
       # script_states limit_arg window_arg burst_arg
           (snd (TokenBucketAllow_script h now_ms limit_arg window_arg cost_arg burst_arg)) rest"

text \<open>
  Calls whose clock (milliseconds, below \<open>2 ^ 53\<close>) never runs backwards and
  whose costs are not negative.
\<close>

fun script_calls_ok :: "int \<Rightarrow> (int \<times> int) list \<Rightarrow> bool" where
  "script_calls_ok t [] = True"
| "script_calls_ok t ((now_ms, cost_arg) # rest) =
     (t \<le> now_ms \<and> now_ms \<le> 9007199254740992 \<and> 0 \<le> cost_arg
      \<and> script_calls_ok now_ms rest)"

fun hash_history :: "bucket_hash list \<Rightarrow> real list" where
  "hash_history [] = []"
| "hash_history (h # hs) =
     (case hash_last_refill h of
        None \<Rightarrow> hash_history hs
      | Some t \<Rightarrow> t # hash_history hs)"

subsection \<open>Sequences of requests to the gateway\<close>

datatype call = AllowCall Time Time Request | QuotaCall Time Request

fun serve_call :: "Server \<Rightarrow> call \<Rightarrow> Server" where
  "serve_call s (AllowCall now until_now req) = snd (handleAllow s now until_now req)"
| "serve_call s (QuotaCall now req) = snd (handleQuota s now req)"

definition serve :: "Server \<Rightarrow> call list \<Rightarrow> Server" where
  "serve s calls = foldl serve_call s calls"

subsection \<open>Sliding window: the stored events of a key\<close>

definition stored_requests :: "sw_state \<Rightarrow> string \<Rightarrow> Time list" where
  "stored_requests st key = (case st key of None \<Rightarrow> [] | Some w \<Rightarrow> requests w)"

text \<open>A sliding-window policy for the concrete evaluations: limit 2 per minute.\<close>

definition window_policy :: Config where
  "window_policy = \<lparr>Limit = 2, Burst = 2, Window = Minute, Algorithm = AlgoSlidingWindow\<rparr>"

section \<open>Properties\<close>

subsection \<open>The rounding of float64\<close>

lemma bitlen_pos: "0 < x \<Longrightarrow> 1 \<le> bitlen x"
  using bitlen_eq_zero_iff[of x] bitlen_nonneg[of x] by linarith

lemma pow2_bitlen:
  assumes "0 < n"
  shows "(2::real) powi (bitlen n - 1) \<le> real_of_int n"
    and "real_of_int n < (2::real) powi bitlen n"
proof -
  from bitlen_pos[OF assms] have b: "0 \<le> bitlen n - 1" "0 \<le> bitlen n" by simp_all
  from bitlen_bounds[OF assms]
  have "2 ^ nat (bitlen n - 1) \<le> n" "n < 2 ^ nat (bitlen n)" by simp_all
  then have "real_of_int (2 ^ nat (bitlen n - 1)) \<le> real_of_int n"
    "real_of_int n < real_of_int (2 ^ nat (bitlen n))"
    by linarith+
  then show "(2::real) powi (bitlen n - 1) \<le> real_of_int n"
    and "real_of_int n < (2::real) powi bitlen n"
    using b by (simp_all add: power_int_nonneg_exp)
qed

lemma float_exp_bounds:
  assumes "0 < x"
  shows "2 powi float_exp x \<le> x \<and> x < 2 powi (float_exp x + 1)"
proof (cases "1 \<le> x")
  case True
  then have pos: "0 < \<lfloor>x\<rfloor>" by linarith
  have e: "float_exp x = bitlen \<lfloor>x\<rfloor> - 1" using True by (simp add: float_exp_def)
  from pow2_bitlen[OF pos] have "2 powi (bitlen \<lfloor>x\<rfloor> - 1) \<le> real_of_int \<lfloor>x\<rfloor>"
    and up: "real_of_int \<lfloor>x\<rfloor> < 2 powi bitlen \<lfloor>x\<rfloor>" by simp_all
  then have lo: "2 powi (bitlen \<lfloor>x\<rfloor> - 1) \<le> x" by linarith
  have "(2::real) powi bitlen \<lfloor>x\<rfloor> = real_of_int (2 ^ nat (bitlen \<lfloor>x\<rfloor>))"
    using bitlen_nonneg[of "\<lfloor>x\<rfloor>"] by (simp add: power_int_nonneg_exp)
  with up have "\<lfloor>x\<rfloor> < 2 ^ nat (bitlen \<lfloor>x\<rfloor>)" by linarith
  then have "\<lfloor>x\<rfloor> + 1 \<le> 2 ^ nat (bitlen \<lfloor>x\<rfloor>)" by simp
  then have "real_of_int (\<lfloor>x\<rfloor> + 1) \<le> real_of_int (2 ^ nat (bitlen \<lfloor>x\<rfloor>))"
    by linarith
  then have "x < 2 powi bitlen \<lfloor>x\<rfloor>"
    using bitlen_nonneg[of "\<lfloor>x\<rfloor>"] by (simp add: power_int_nonneg_exp) linarith
  with lo e show ?thesis by simp
next
  case False
  with assms have x: "0 < x" "x < 1" by simp_all
  define y where "y = 1 / x"
  have y: "1 < y" using x by (simp add: y_def)
  then have pos: "0 < \<lfloor>y\<rfloor>" by linarith
  define k where "k = bitlen \<lfloor>y\<rfloor> - 1"
  have k0: "0 \<le> k" using bitlen_pos[OF pos] by (simp add: k_def)
  from pow2_bitlen[OF pos] have "2 powi k \<le> real_of_int \<lfloor>y\<rfloor>"
    and up: "real_of_int \<lfloor>y\<rfloor> < 2 powi (k + 1)" by (simp_all add: k_def)
  then have lo: "2 powi k \<le> y" by linarith
  have "(2::real) powi (k + 1) = real_of_int (2 ^ nat (k + 1))"
    using k0 by (simp add: power_int_nonneg_exp)
  with up have "\<lfloor>y\<rfloor> < 2 ^ nat (k + 1)" by linarith
  then have "\<lfloor>y\<rfloor> + 1 \<le> 2 ^ nat (k + 1)" by simp
  then have "real_of_int (\<lfloor>y\<rfloor> + 1) \<le> real_of_int (2 ^ nat (k + 1))"
    by linarith
  then have hi: "y < 2 powi (k + 1)"
    using k0 by (simp add: power_int_nonneg_exp) linarith
  have p: "0 < (2::real) powi k" "0 < (2::real) powi (k + 1)" by simp_all
  from lo x p have xle: "x * 2 powi k \<le> 1"
    by (simp add: y_def field_simps)
  from hi x p have xgt: "1 < x * 2 powi (k + 1)"
    by (simp add: y_def field_simps)
  have e: "float_exp x = (if x * 2 powi k = 1 then - k else - k - 1)"
    using False by (simp add: float_exp_def Let_def k_def y_def)
  show ?thesis
  proof (cases "x * 2 powi k = 1")
    case True
    then have "x = 2 powi (- k)"
      using p by (simp add: power_int_minus field_simps)
    moreover have "(2::real) powi (- k) < 2 powi (- k + 1)"
      by (rule power_int_strict_increasing) simp_all
    ultimately show ?thesis using e True by simp
  next
    case False
    with xle have lt: "x * 2 powi k < 1" by simp
    then have "x < 2 powi (- k)"
      using p by (simp add: power_int_minus field_simps)
    moreover have "2 powi (- k - 1) \<le> x"
    proof -
      have "- k - 1 = - (k + 1)" by simp
      then have "(2::real) powi (- k - 1) = 1 / 2 powi (k + 1)"
        by (simp only: power_int_minus_divide)
      moreover have "1 / 2 powi (k + 1) \<le> x"
        using xgt pos_divide_le_eq[OF p(2), of 1 x] by simp
      ultimately show ?thesis by simp
    qed
    ultimately show ?thesis using e False by simp
  qed
qed

lemma pow2_sandwich_unique:
  fixes x :: real
  assumes "2 powi a \<le> x" "x < 2 powi (a + 1)" "2 powi b \<le> x" "x < 2 powi (b + 1)"
  shows "a = b"
proof (rule ccontr)
  assume "a \<noteq> b"
  then consider "a + 1 \<le> b" | "b + 1 \<le> a" by linarith
  then show False
  proof cases
    case 1
    then have "(2::real) powi (a + 1) \<le> 2 powi b" by (intro power_int_increasing) simp_all
    with assms show False by linarith
  next
    case 2
    then have "(2::real) powi (b + 1) \<le> 2 powi a" by (intro power_int_increasing) simp_all
    with assms show False by linarith
  qed
qed

lemma float_exp_eq:
  assumes "2 powi e \<le> x" and "x < 2 powi (e + 1)"
  shows "float_exp x = e"
proof -
  have "0 < x" using assms(1) zero_less_power_int[of "2::real" e] by linarith
  from float_exp_bounds[OF this] assms show ?thesis
    using pow2_sandwich_unique[of "float_exp x" x e] by blast
qed


text \<open>Rounding to the nearest integer, ties to even.\<close>

lemma rne_cases: "rne y = \<lfloor>y\<rfloor> \<or> rne y = \<lfloor>y\<rfloor> + 1"
  by (simp add: rne_def Let_def)

lemma rne_int [simp]: "rne (real_of_int n) = n"
  by (simp add: rne_def Let_def)

lemma rne_mono:
  assumes "a \<le> b"
  shows "rne a \<le> rne b"
proof (cases "\<lfloor>a\<rfloor> = \<lfloor>b\<rfloor>")
  case False
  with assms have "\<lfloor>a\<rfloor> + 1 \<le> \<lfloor>b\<rfloor>"
    using floor_mono[OF assms] by linarith
  moreover have "rne a \<le> \<lfloor>a\<rfloor> + 1" using rne_cases[of a] by linarith
  moreover have "\<lfloor>b\<rfloor> \<le> rne b" using rne_cases[of b] by linarith
  ultimately show ?thesis by linarith
next
  case True
  then show ?thesis
    using assms by (auto simp: rne_def Let_def)
qed

lemma rne_le_int: "y \<le> real_of_int n \<Longrightarrow> rne y \<le> n"
  using rne_mono[of y "real_of_int n"] by simp

lemma rne_ge_int: "real_of_int n \<le> y \<Longrightarrow> n \<le> rne y"
  using rne_mono[of "real_of_int n" y] by simp

lemma rne_close: "\<bar>real_of_int (rne y) - y\<bar> \<le> 1 / 2"
  unfolding rne_def Let_def by (auto simp: abs_le_iff)

text \<open>Rounding a positive real to 53 significant bits.\<close>

lemma pow2_split: "(2::real) powi (a + b) = 2 powi a * 2 powi b"
  by (rule power_int_add) simp

lemma scaled_bounds:
  fixes x :: real
  assumes "2 powi e \<le> x" and "x < 2 powi (e + 1)"
  shows "2 powi 52 \<le> x * 2 powi (52 - e)" and "x * 2 powi (52 - e) < 2 powi 53"
proof -
  have p: "0 < (2::real) powi (52 - e)" by simp
  have a: "(2::real) powi e * 2 powi (52 - e) = 2 powi 52"
    using pow2_split[of e "52 - e"] by simp
  have b: "(2::real) powi (e + 1) * 2 powi (52 - e) = 2 powi 53"
    using pow2_split[of "e + 1" "52 - e"] by simp
  from assms(1) p have "2 powi e * 2 powi (52 - e) \<le> x * 2 powi (52 - e)"
    by (simp add: mult_right_mono)
  with a show "2 powi 52 \<le> x * 2 powi (52 - e)" by simp
  from assms(2) p have "x * 2 powi (52 - e) < 2 powi (e + 1) * 2 powi (52 - e)"
    by (simp add: mult_strict_right_mono)
  with b show "x * 2 powi (52 - e) < 2 powi 53" by simp
qed

lemma round_pos_eval:
  assumes "2 powi e \<le> x" and "x < 2 powi (e + 1)"
  shows "round_pos x = real_of_int (rne (x * 2 powi (52 - e))) * 2 powi (e - 52)"
  using float_exp_eq[OF assms] by (simp add: round_pos_def)

lemma mantissa_bounds:
  fixes x :: real
  assumes "2 powi e \<le> x" and "x < 2 powi (e + 1)"
  shows "4503599627370496 \<le> rne (x * 2 powi (52 - e))"
    and "rne (x * 2 powi (52 - e)) \<le> 9007199254740992"
proof -
  from scaled_bounds[OF assms]
  have "real_of_int 4503599627370496 \<le> x * 2 powi (52 - e)"
    and "x * 2 powi (52 - e) \<le> real_of_int 9007199254740992"
    by simp_all
  then show "4503599627370496 \<le> rne (x * 2 powi (52 - e))"
    and "rne (x * 2 powi (52 - e)) \<le> 9007199254740992"
    by (simp_all only: rne_ge_int rne_le_int)
qed

lemma round_pos_bounds:
  fixes x :: real
  assumes "2 powi e \<le> x" and "x < 2 powi (e + 1)"
  shows "2 powi e \<le> round_pos x" and "round_pos x \<le> 2 powi (e + 1)"
proof -
  have p: "0 \<le> (2::real) powi (e - 52)" by simp
  have a: "(2::real) powi e = 4503599627370496 * 2 powi (e - 52)"
    using pow2_split[of 52 "e - 52"] by simp
  have "e + 1 = 53 + (e - 52)" by simp
  then have "(2::real) powi (e + 1) = 2 powi 53 * 2 powi (e - 52)"
    by (simp only: pow2_split)
  then have b: "(2::real) powi (e + 1) = 9007199254740992 * 2 powi (e - 52)"
    by simp
  from mantissa_bounds[OF assms]
  have "4503599627370496 \<le> real_of_int (rne (x * 2 powi (52 - e)))"
    and "real_of_int (rne (x * 2 powi (52 - e))) \<le> 9007199254740992"
    by linarith+
  then have "4503599627370496 * 2 powi (e - 52) \<le> round_pos x"
    and "round_pos x \<le> 9007199254740992 * 2 powi (e - 52)"
    unfolding round_pos_eval[OF assms] using p by (simp_all only: mult_right_mono)
  then show "2 powi e \<le> round_pos x" and "round_pos x \<le> 2 powi (e + 1)"
    by (simp_all only: a b)
qed

lemma round_pos_pos: "0 < x \<Longrightarrow> 0 < round_pos x"
proof -
  assume "0 < x"
  from float_exp_bounds[OF this] round_pos_bounds(1)[of "float_exp x" x]
  have "2 powi float_exp x \<le> round_pos x" by simp
  moreover have "0 < (2::real) powi float_exp x" by simp
  ultimately show ?thesis by linarith
qed

lemma round_pos_mono:
  assumes "0 < x" and "x \<le> y"
  shows "round_pos x \<le> round_pos y"
proof -
  define a where "a = float_exp x"
  define b where "b = float_exp y"
  from assms have y: "0 < y" by simp
  from float_exp_bounds[OF assms(1)] have xa: "2 powi a \<le> x" "x < 2 powi (a + 1)"
    by (simp_all add: a_def)
  from float_exp_bounds[OF y] have yb: "2 powi b \<le> y" "y < 2 powi (b + 1)"
    by (simp_all add: b_def)
  have ab: "a \<le> b"
  proof (rule ccontr)
    assume "\<not> a \<le> b"
    then have "b + 1 \<le> a" by simp
    then have "(2::real) powi (b + 1) \<le> 2 powi a" by (intro power_int_increasing) simp_all
    with xa yb assms show False by linarith
  qed
  show ?thesis
  proof (cases "a = b")
    case True
    have "x * 2 powi (52 - b) \<le> y * 2 powi (52 - b)"
      using assms(2) by (simp add: mult_right_mono)
    then have "rne (x * 2 powi (52 - b)) \<le> rne (y * 2 powi (52 - b))"
      by (rule rne_mono)
    then have "real_of_int (rne (x * 2 powi (52 - b))) * 2 powi (b - 52)
        \<le> real_of_int (rne (y * 2 powi (52 - b))) * 2 powi (b - 52)"
      by (simp add: mult_right_mono)
    then show ?thesis
      using round_pos_eval[OF xa] round_pos_eval[OF yb] True by simp
  next
    case False
    with ab have "a + 1 \<le> b" by simp
    then have "(2::real) powi (a + 1) \<le> 2 powi b" by (intro power_int_increasing) simp_all
    with round_pos_bounds(2)[OF xa] round_pos_bounds(1)[OF yb] show ?thesis by linarith
  qed
qed

text \<open>\<open>float64\<close> is monotone and leaves the \<^verbatim>\<open>float64\<close> values alone.\<close>

lemma float64_zero [simp]: "float64 0 = 0"
  by (simp add: float64_def)

lemma float64_minus: "float64 (- x) = - float64 x"
  by (simp add: float64_def)

lemma float64_pos: "0 < x \<Longrightarrow> 0 < float64 x"
  by (simp add: float64_def round_pos_pos)

lemma float64_nonneg: "0 \<le> x \<Longrightarrow> 0 \<le> float64 x"
  using float64_pos[of x] by (cases "x = 0") (simp_all add: less_eq_real_def)

lemma float64_neg: "x < 0 \<Longrightarrow> float64 x < 0"
  using float64_pos[of "- x"] by (simp add: float64_minus)

lemma float64_nonpos: "x \<le> 0 \<Longrightarrow> float64 x \<le> 0"
  using float64_nonneg[of "- x"] by (simp add: float64_minus)

lemma float64_mono:
  assumes "x \<le> y"
  shows "float64 x \<le> float64 y"
proof -
  consider "0 < x" | "x \<le> 0" "0 \<le> y" | "y < 0" using assms by linarith
  then show ?thesis
  proof cases
    case 1
    with assms have "0 < y" by simp
    with 1 assms show ?thesis by (simp add: float64_def round_pos_mono)
  next
    case 2
    then show ?thesis using float64_nonpos[of x] float64_nonneg[of y] by linarith
  next
    case 3
    with assms have "0 < - y" "- y \<le> - x" "x < 0" by simp_all
    then have "round_pos (- y) \<le> round_pos (- x)" by (intro round_pos_mono)
    with 3 \<open>x < 0\<close> show ?thesis by (simp add: float64_def)
  qed
qed

lemma float64_eval:
  assumes "2 powi e \<le> x" and "x < 2 powi (e + 1)"
  shows "float64 x = real_of_int (rne (x * 2 powi (52 - e))) * 2 powi (e - 52)"
proof -
  have "0 < x" using assms(1) zero_less_power_int[of "2::real" e] by linarith
  then show ?thesis by (simp add: float64_def round_pos_eval[OF assms])
qed

lemma is_float_minus: "is_float x \<Longrightarrow> is_float (- x)"
proof -
  assume "is_float x"
  then obtain m k where "\<bar>m\<bar> \<le> 9007199254740992" "x = real_of_int m * 2 powi k"
    by (auto simp: is_float_def)
  then have "\<bar>- m\<bar> \<le> 9007199254740992" "- x = real_of_int (- m) * 2 powi k" by simp_all
  then show ?thesis unfolding is_float_def by blast
qed

lemma float64_is_float: "is_float (float64 x)"
proof -
  have pos: "is_float (round_pos z)" if "0 < z" for z
  proof -
    from float_exp_bounds[OF that] mantissa_bounds[of "float_exp z" z]
    have "\<bar>rne (z * 2 powi (52 - float_exp z))\<bar> \<le> 9007199254740992" by simp
    then show ?thesis unfolding is_float_def round_pos_def by blast
  qed
  show ?thesis
  proof (cases "x = 0")
    case True
    have "\<bar>0::int\<bar> \<le> 9007199254740992" "(0::real) = real_of_int 0 * 2 powi 0" by simp_all
    then have "is_float 0" unfolding is_float_def by blast
    with True show ?thesis by simp
  next
    case False
    then show ?thesis
      using pos[of x] pos[of "- x"] is_float_minus[of "round_pos (- x)"]
      by (cases "0 < x") (simp_all add: float64_def)
  qed
qed

lemma float64_fixed_pos:
  assumes "0 < m" and "m \<le> 9007199254740992"
  shows "float64 (real_of_int m * 2 powi k) = real_of_int m * 2 powi k"
proof -
  define x where "x = real_of_int m * 2 powi k"
  define e where "e = float_exp x"
  have xpos: "0 < x" using assms(1) by (simp add: x_def)
  from float_exp_bounds[OF xpos] have b: "2 powi e \<le> x" "x < 2 powi (e + 1)"
    by (simp_all add: e_def)
  have scaled: "x * 2 powi (52 - e) = real_of_int m * 2 powi (k + 52 - e)"
    using pow2_split[of k "52 - e"] by (simp add: x_def algebra_simps)
  from scaled_bounds[OF b] have s: "2 powi 52 \<le> real_of_int m * 2 powi (k + 52 - e)"
    "real_of_int m * 2 powi (k + 52 - e) < 2 powi 53"
    by (simp_all add: scaled)
  have ex: "\<exists>j. real_of_int m * 2 powi (k + 52 - e) = real_of_int j"
  proof (cases "0 \<le> k + 52 - e")
    case True
    then have "real_of_int m * 2 powi (k + 52 - e) = real_of_int (m * 2 ^ nat (k + 52 - e))"
      by (simp add: power_int_nonneg_exp)
    then show ?thesis by blast
  next
    case False
    then have neg: "k + 52 - e \<le> - 1" by simp
    then have "(2::real) powi (k + 52 - e) \<le> 2 powi (- 1)"
      by (intro power_int_increasing) simp_all
    then have "real_of_int m * 2 powi (k + 52 - e) \<le> real_of_int m * 2 powi (- 1)"
      using assms(1) by (simp add: mult_left_mono)
    also have "\<dots> \<le> 2 powi 53 * 2 powi (- 1)"
      using assms(2) by simp
    finally have le: "real_of_int m * 2 powi (k + 52 - e) \<le> 2 powi 52" by simp
    with s(1) have eq: "real_of_int m * 2 powi (k + 52 - e) = 2 powi 52" by simp
    have "(2::real) powi 52 = real_of_int 4503599627370496" by simp
    with eq show ?thesis by metis
  qed
  then obtain j where j: "x * 2 powi (52 - e) = real_of_int j" using scaled by auto
  have "float64 x = real_of_int (rne (x * 2 powi (52 - e))) * 2 powi (e - 52)"
    using b by (rule float64_eval)
  also have "\<dots> = x * 2 powi (52 - e) * 2 powi (e - 52)"
    by (simp add: j)
  also have "\<dots> = x"
    using pow2_split[of "52 - e" "e - 52"] by (simp add: mult.assoc)
  finally show ?thesis by (simp add: x_def)
qed

lemma float64_fixed:
  assumes "\<bar>m\<bar> \<le> 9007199254740992"
  shows "float64 (real_of_int m * 2 powi k) = real_of_int m * 2 powi k"
proof -
  consider "0 < m" | "m = 0" | "m < 0" by linarith
  then show ?thesis
  proof cases
    case 1
    with assms show ?thesis by (intro float64_fixed_pos) simp_all
  next
    case 2
    then show ?thesis by simp
  next
    case 3
    with assms have "float64 (real_of_int (- m) * 2 powi k) = real_of_int (- m) * 2 powi k"
      by (intro float64_fixed_pos) simp_all
    then show ?thesis using float64_minus[of "real_of_int m * 2 powi k"] by simp
  qed
qed

lemma float64_id: "is_float x \<Longrightarrow> float64 x = x"
  by (auto simp: is_float_def float64_fixed)

lemma float64_idem [simp]: "float64 (float64 x) = float64 x"
  by (rule float64_id) (rule float64_is_float)

lemma float64_int: "\<bar>n\<bar> \<le> 9007199254740992 \<Longrightarrow> float64 (real_of_int n) = real_of_int n"
  using float64_fixed[of n 0] by simp

lemma float64_le: "x \<le> b \<Longrightarrow> is_float b \<Longrightarrow> float64 x \<le> b"
  using float64_mono[of x b] by (simp add: float64_id)

lemma float64_ge: "a \<le> x \<Longrightarrow> is_float a \<Longrightarrow> a \<le> float64 x"
  using float64_mono[of a x] by (simp add: float64_id)

subsection \<open>Basic facts about the embedding\<close>

lemma is_floatI:
  "\<bar>m\<bar> \<le> 9007199254740992 \<Longrightarrow> x = real_of_int m * 2 powi k \<Longrightarrow> is_float x"
  unfolding is_float_def by blast

lemma float64_numeral [simp]:
  "numeral w \<le> (9007199254740992::int) \<Longrightarrow> float64 (numeral w) = numeral w"
  using float64_int[of "numeral w"] by simp

lemma float64_neg_numeral [simp]:
  "numeral w \<le> (9007199254740992::int) \<Longrightarrow> float64 (- numeral w) = - numeral w"
  using float64_int[of "- numeral w"] by simp

lemma float64_one [simp]: "float64 1 = 1"
  using float64_int[of 1] by simp

lemma float64_of_int_small:
  "\<bar>n\<bar> \<le> 9007199254740992 \<Longrightarrow> float64_of_int n = real_of_int n"
  by (simp add: float64_of_int_def float64_int)

lemma float64_of_int_nonneg: "0 \<le> n \<Longrightarrow> 0 \<le> float64_of_int n"
  by (simp add: float64_of_int_def float64_nonneg)

lemma float64_of_int_pos: "0 < n \<Longrightarrow> 0 < float64_of_int n"
  by (simp add: float64_of_int_def float64_pos)

lemma float64_of_int_is_float: "is_float (float64_of_int n)"
  by (simp add: float64_of_int_def float64_is_float)

lemma int64_id: "in_int64 x \<Longrightarrow> int64 x = x"
  by (simp add: in_int64_def int64_def)

lemma go_quot_nonneg: "0 \<le> d \<Longrightarrow> go_quot d Second = d div Second"
  by (cases "d = 0") (simp_all add: go_quot_def Second_def)

lemma go_rem_nonneg: "0 \<le> d \<Longrightarrow> go_rem d Second = d mod Second"
  by (simp add: go_rem_def go_quot_nonneg minus_mult_div_eq_mod)

lemma go_quot_whole: "go_quot (n * Second) Second = n"
proof -
  have "\<bar>n * Second\<bar> div \<bar>Second\<bar> = \<bar>n\<bar>"
    by (simp add: Second_def abs_mult)
  then show ?thesis
    by (simp add: go_quot_def Second_def sgn_mult flip: abs_sgn mult.assoc)
      (metis mult.commute mult_sgn_abs)
qed

lemma go_rem_whole: "go_rem (n * Second) Second = 0"
  by (simp add: go_rem_def go_quot_whole)

lemma Seconds_nonneg: "0 \<le> d \<Longrightarrow> 0 \<le> Seconds d"
proof -
  assume d: "0 \<le> d"
  then have "0 \<le> d div Second" "0 \<le> d mod Second"
    by (simp_all add: Second_def pos_imp_zdiv_nonneg_iff)
  then have "0 \<le> float64_of_int (go_quot d Second)"
    and "0 \<le> fdiv (float64_of_int (go_rem d Second)) 1000000000"
    using d by (simp_all add: go_quot_nonneg go_rem_nonneg float64_of_int_nonneg fdiv_def
        float64_nonneg)
  then show ?thesis by (simp add: Seconds_def fadd_def float64_nonneg)
qed

lemma Seconds_pos: "0 < d \<Longrightarrow> 0 < Seconds d"
proof -
  assume d: "0 < d"
  then have nn: "0 \<le> d div Second" "0 \<le> d mod Second"
    by (simp_all add: Second_def pos_imp_zdiv_nonneg_iff)
  have "d = Second * (d div Second) + d mod Second" by simp
  with d have "0 < d div Second \<or> 0 < d mod Second"
    using nn by (metis add.right_neutral less_le mult_zero_right)
  then have "0 < float64_of_int (go_quot d Second)
       + fdiv (float64_of_int (go_rem d Second)) 1000000000"
  proof
    assume "0 < d div Second"
    then have "0 < float64_of_int (go_quot d Second)"
      using d by (simp add: go_quot_nonneg float64_of_int_pos)
    moreover have "0 \<le> fdiv (float64_of_int (go_rem d Second)) 1000000000"
      using d nn by (simp add: go_rem_nonneg float64_of_int_nonneg fdiv_def float64_nonneg)
    ultimately show ?thesis by linarith
  next
    assume "0 < d mod Second"
    then have "0 < fdiv (float64_of_int (go_rem d Second)) 1000000000"
      using d by (simp add: go_rem_nonneg float64_of_int_pos fdiv_def float64_pos)
    moreover have "0 \<le> float64_of_int (go_quot d Second)"
      using d nn by (simp add: go_quot_nonneg float64_of_int_nonneg)
    ultimately show ?thesis by linarith
  qed
  then show ?thesis by (simp add: Seconds_def fadd_def float64_pos)
qed

lemma Seconds_whole:
  "\<bar>n\<bar> \<le> 9007199254740992 \<Longrightarrow> Seconds (n * Second) = real_of_int n"
  by (simp add: Seconds_def go_quot_whole go_rem_whole float64_of_int_small fadd_def fdiv_def
      float64_int)

lemma Seconds_zero [simp]: "Seconds 0 = 0"
  using Seconds_whole[of 0] by simp

lemma Sub_id: "in_int64 (t - u) \<Longrightarrow> Sub t u = t - u"
  by (simp add: Sub_def in_int64_def)

lemma Sub_self [simp]: "Sub t t = 0"
  by (simp add: Sub_def)

lemma Sub_nonneg: "u \<le> t \<Longrightarrow> 0 \<le> Sub t u"
  by (simp add: Sub_def)

lemma Sub_add: "in_int64 d \<Longrightarrow> Sub (t + d) t = d"
  by (simp add: Sub_def in_int64_def)

lemma eff_limit_pos: "0 < eff_limit cfg"
  by (simp add: eff_limit_def)

lemma eff_burst_pos: "0 < eff_burst cfg"
  by (simp add: eff_burst_def eff_limit_def)

lemma eff_window_pos: "0 < eff_window cfg"
  by (simp add: eff_window_def Minute_def Second_def)

lemma refillPerSec_pos: "0 < refillPerSec cfg"
  using float64_of_int_pos[OF eff_limit_pos[of cfg]] Seconds_pos[OF eff_window_pos[of cfg]]
  by (simp add: refillPerSec_def fdiv_def float64_pos)

lemma Second_div: "(n * Second) div Second = n"
  by (simp add: Second_def)

lemma refill_lastRefill: "lastRefill (refill cfg now entry) = now"
  by (simp add: refill_def Let_def)

lemma consume_lastRefill: "lastRefill (consume b cost) = lastRefill b"
  by (simp add: consume_def)

lemma Allow_stored:
  "snd (TokenBucketLimiter_Allow cfg st now key cost)
     = st(key \<mapsto> consume (refill cfg now (st key)) cost)"
  by (simp add: TokenBucketLimiter_Allow_def Let_def)

lemma GetQuota_stored:
  "snd (TokenBucketLimiter_GetQuota cfg st now key) = st(key \<mapsto> refill cfg now (st key))"
  by (simp add: TokenBucketLimiter_GetQuota_def Let_def)

lemma Limiter_Allow_err: "snd (fst (Limiter_Allow rl now key cost)) = None"
  by (cases rl) (simp_all add: split_def Let_def)

lemma demo_manager:
  "NewLocalManager demo_policy =
     \<lparr>mgr_limiter = TokenBucketLimiter demo_policy Map.empty, mgr_cfg = demo_policy\<rparr>"
  by (simp add: NewLocalManager_def demo_policy_def NewTokenBucketLimiter_def
      AlgoTokenBucket_def AlgoSlidingWindow_def)

text \<open>The refill rates of the two sample policies, as the \<^verbatim>\<open>float64\<close> values they are.\<close>

lemma Seconds_Minute: "Seconds Minute = 60"
  using Seconds_whole[of 60] by (simp add: Minute_def)

lemma refillPerSec_demo:
  "refillPerSec demo_policy = 7505999378950827 / 4503599627370496"
proof -
  have "float64 (100 / 60) = 7505999378950827 / 4503599627370496"
    by (subst float64_eval[of 0]) (simp_all add: rne_def Let_def)
  then show ?thesis
    by (simp add: refillPerSec_def demo_policy_def eff_limit_def eff_window_def
        Seconds_Minute float64_of_int_def fdiv_def)
qed

lemma refillPerSec_policy5:
  "refillPerSec policy5 = 6004799503160661 / 72057594037927936"
proof -
  have "float64 (5 / 60) = 6004799503160661 / 72057594037927936"
    by (subst float64_eval[of "- 4"]) (simp_all add: rne_def Let_def power_int_minus)
  then show ?thesis
    by (simp add: refillPerSec_def policy5_def eff_limit_def eff_window_def
        Seconds_Minute float64_of_int_def fdiv_def)
qed

subsection \<open>Token bucket: the retry delay of a denied admit\<close>

lemma is_float_int: "\<bar>n\<bar> \<le> 9007199254740992 \<Longrightarrow> is_float (real_of_int n)"
  by (rule is_floatI[of n _ 0]) simp_all

lemma float64_half [simp]: "float64 (1 / 2) = 1 / 2"
  by (rule float64_id, rule is_floatI[of 1 _ "- 1"]) (simp_all add: power_int_minus)

text \<open>Truncation of a float lying between two neighbouring integers.\<close>

lemma int64_of_float_between:
  assumes "real_of_int n \<le> x" and "x < real_of_int n + 1" and "0 \<le> n" and "in_int64 n"
  shows "int64_of_float x = n"
proof -
  have "0 \<le> x" using assms(1,3) by linarith
  moreover have "\<lfloor>x\<rfloor> = n" using assms(1,2) by linarith
  ultimately show ?thesis using assms(4) by (simp add: int64_of_float_def)
qed

lemma int64_of_float_between_neg:
  assumes "real_of_int n - 1 < x" and "x \<le> real_of_int n" and "n \<le> 0" and "in_int64 n"
  shows "int64_of_float x = n"
proof (cases "x = 0")
  case True
  then have "n = 0" using assms(2,3) by linarith
  then show ?thesis using True by (simp add: int64_of_float_def in_int64_def)
next
  case False
  then have "x < 0" using assms(2,3) by linarith
  moreover have "\<lceil>x\<rceil> = n" using assms(1,2) by linarith
  ultimately show ?thesis using assms(4) by (simp add: int64_of_float_def)
qed

lemma int64_of_float_int:
  "in_int64 n \<Longrightarrow> int64_of_float (real_of_int n) = n"
  by (simp add: int64_of_float_def)

lemma int64_of_float_numeral:
  "int64_of_float (numeral w)
     = (if in_int64 (numeral w) then numeral w else - 9223372036854775808)"
  by (simp add: int64_of_float_def)

lemma int64_of_float_zero [simp]: "int64_of_float 0 = 0"
  by (simp add: int64_of_float_def in_int64_def)

lemma whole_seconds_between:
  assumes "real_of_int n \<le> x" and "x < real_of_int n + 1" and "0 \<le> n" and "n \<le> 9000000000"
  shows "whole_seconds x = n * Second"
proof -
  have "in_int64 n" using assms(3,4) by (simp add: in_int64_def)
  from int64_of_float_between[OF assms(1,2,3) this]
  show ?thesis using assms(3,4) by (simp add: whole_seconds_def int64_def Second_def)
qed

lemma whole_seconds_between_neg:
  assumes "real_of_int n - 1 < x" and "x \<le> real_of_int n" and "n \<le> 0" and "- 9000000000 \<le> n"
  shows "whole_seconds x = n * Second"
proof -
  have "in_int64 n" using assms(3,4) by (simp add: in_int64_def)
  from int64_of_float_between_neg[OF assms(1,2,3) this]
  show ?thesis using assms(3,4) by (simp add: whole_seconds_def int64_def Second_def)
qed

lemmas fops = fadd_def fsub_def fmul_def fdiv_def float64_of_int_def

lemma policy5_eff:
  "eff_limit policy5 = 5" "eff_burst policy5 = 5" "eff_window policy5 = Minute"
  by (simp_all add: policy5_def eff_limit_def eff_burst_def eff_window_def Minute_def Second_def)

lemma demo_eff:
  "eff_limit demo_policy = 100" "eff_burst demo_policy = 100" "eff_window demo_policy = Minute"
  by (simp_all add: demo_policy_def eff_limit_def eff_burst_def eff_window_def Minute_def
      Second_def)

text \<open>The first admit of a key, and an admit at the clock of the last refill.\<close>

lemma refill_fresh:
  "refill cfg now None = \<lparr>tokens = float64_of_int (eff_burst cfg), lastRefill = now\<rparr>"
  by (simp add: refill_def Let_def fadd_def fmul_def minFloat_def float64_of_int_def)

lemma refill_same_clock:
  "is_float t \<Longrightarrow> t \<le> float64_of_int (eff_burst cfg)
   \<Longrightarrow> refill cfg now (Some \<lparr>tokens = t, lastRefill = now\<rparr>) = \<lparr>tokens = t, lastRefill = now\<rparr>"
  by (simp add: refill_def Let_def fadd_def fmul_def minFloat_def float64_id)

lemma S1_bucket_emptied:
  "tb_run policy5 Map.empty
     [(0, Admit ''k'' 1), (0, Admit ''k'' 1), (0, Admit ''k'' 1), (0, Admit ''k'' 1),
      (0, Admit ''k'' 1)]
   = [''k'' \<mapsto> \<lparr>tokens = 0, lastRefill = 0\<rparr>]"
  by (simp add: tb_run_def Allow_stored refill_fresh refill_same_clock policy5_eff consume_def
      fops is_float_int[of 4, simplified] is_float_int[of 3, simplified]
      is_float_int[of 2, simplified] is_float_int[of 1, simplified])

lemma Seconds_half: "Seconds 500000000 = 1 / 2"
  by (simp add: Seconds_def go_quot_def go_rem_def Second_def fops)

lemma S2_tokens: "float64 (1 / 24) = 6004799503160661 / 144115188075855872"
  by (subst float64_eval[of "- 5"]) (simp_all add: rne_def Let_def power_int_minus)

lemma S2_refill:
  "refill policy5 500000000 (Some \<lparr>tokens = 0, lastRefill = 0\<rparr>)
     = \<lparr>tokens = float64 (1 / 24), lastRefill = 500000000\<rparr>"
proof -
  have "is_float (6004799503160661 / 144115188075855872)"
    by (rule is_floatI[of 6004799503160661 _ "- 57"]) (simp_all add: power_int_minus)
  then have "float64 (6004799503160661 / 144115188075855872)
      = 6004799503160661 / 144115188075855872"
    by (rule float64_id)
  then show ?thesis
    by (simp add: refill_def Let_def Sub_def Seconds_half refillPerSec_policy5 policy5_eff
        fops minFloat_def S2_tokens)
qed

lemma S2_need:
  "fsub 1 (float64 (1 / 24)) = 8631899285793451 / 9007199254740992"
  unfolding fsub_def S2_tokens
  by (subst float64_eval[of "- 1"]) (simp_all add: rne_def Let_def power_int_minus)

lemma S2_delay:
  "11 \<le> fdiv (fsub 1 (float64 (1 / 24))) (refillPerSec policy5)
   \<and> fdiv (fsub 1 (float64 (1 / 24))) (refillPerSec policy5) < 12"
proof -
  have a: "is_float 11" using is_float_int[of 11] by simp
  have b: "is_float (47 / 4)"
    by (rule is_floatI[of 47 _ "- 2"]) (simp_all add: power_int_minus)
  have "11 \<le> fdiv (fsub 1 (float64 (1 / 24))) (refillPerSec policy5)"
    unfolding fdiv_def S2_need refillPerSec_policy5 by (rule float64_ge[OF _ a]) simp
  moreover have "fdiv (fsub 1 (float64 (1 / 24))) (refillPerSec policy5) \<le> 47 / 4"
    unfolding fdiv_def S2_need refillPerSec_policy5 by (rule float64_le[OF _ b]) simp
  ultimately show ?thesis by simp
qed

lemma Seconds_11: "Seconds 11000000000 = 11"
  using Seconds_whole[of 11] by (simp add: Second_def)

text \<open>
  C2. Scenario S2: under policy \<open>{limit 5, window 60 s, burst 5}\<close> five admits
  of cost 1 at \<open>t = 0\<close> empty the bucket; the admit of cost 1 at \<open>t = 0.5 s\<close>
  finds \<open>1/24\<close> of a token (as a \<^verbatim>\<open>float64\<close>), is denied, and reports
  \<open>retry_after_s = 11\<close> where the specification's formula gives 12.
\<close>

theorem S2_retry_after_truncated:
  "tb_run policy5 Map.empty
     [(0, Admit ''k'' 1), (0, Admit ''k'' 1), (0, Admit ''k'' 1), (0, Admit ''k'' 1),
      (0, Admit ''k'' 1)]
   = [''k'' \<mapsto> \<lparr>tokens = 0, lastRefill = 0\<rparr>]
   \<and> TokenBucketLimiter_Allow policy5 [''k'' \<mapsto> \<lparr>tokens = 0, lastRefill = 0\<rparr>]
        500000000 ''k'' 1
     = (\<lparr>Allowed = False, Remaining = 0, ResultLimit = 5, ResetTime = 11500000000,
         RetryAfterSeconds = 11\<rparr>,
        [''k'' \<mapsto> \<lparr>tokens = float64 (1 / 24), lastRefill = 500000000\<rparr>])
   \<and> spec_retry_after policy5 1 (float64 (1 / 24)) = 12"
proof -
  have lt: "float64 (1 / 24) < 1" by (simp add: S2_tokens)
  have w: "whole_seconds (fdiv (fsub 1 (float64 (1 / 24))) (refillPerSec policy5))
      = 11000000000"
    using whole_seconds_between[of 11 "fdiv (fsub 1 (float64 (1 / 24))) (refillPerSec policy5)"]
      S2_delay by (simp add: Second_def)
  have rem: "int64_of_float (float64 (1 / 24)) = 0"
    by (rule int64_of_float_between) (simp_all add: S2_tokens in_int64_def)
  have "TokenBucketLimiter_Allow policy5 [''k'' \<mapsto> \<lparr>tokens = 0, lastRefill = 0\<rparr>]
        500000000 ''k'' 1
     = (\<lparr>Allowed = False, Remaining = 0, ResultLimit = 5, ResetTime = 11500000000,
         RetryAfterSeconds = 11\<rparr>,
        [''k'' \<mapsto> \<lparr>tokens = float64 (1 / 24), lastRefill = 500000000\<rparr>])"
    using lt
    by (simp add: TokenBucketLimiter_Allow_def Let_def S2_refill consume_def float64_of_int_def
        w rem policy5_eff Sub_def Seconds_11 int64_of_float_numeral in_int64_def)
  moreover have "spec_retry_after policy5 1 (float64 (1 / 24)) = 12"
    by (simp add: spec_retry_after_def spec_rate_def policy5_def Minute_def Second_def S2_tokens)
  ultimately show ?thesis using S1_bucket_emptied by simp
qed

subsection \<open>Decision keys and their buckets\<close>

lemma TokenBucketLimiter_Allow_frame:
  "k \<noteq> key \<Longrightarrow> snd (TokenBucketLimiter_Allow cfg st now key cost) k = st k"
  by (simp add: TokenBucketLimiter_Allow_def Let_def)

lemma SlidingWindowLimiter_Allow_frame:
  "k \<noteq> key \<Longrightarrow> snd (SlidingWindowLimiter_Allow cfg st now key cost) k = st k"
  by (simp add: SlidingWindowLimiter_Allow_def Let_def)

lemma split_at_first:
  assumes "c \<notin> set xs" and "c \<notin> set ys" and "xs @ c # u = ys @ c # v"
  shows "xs = ys \<and> u = v"
proof -
  have "takeWhile (\<lambda>x. x \<noteq> c) (xs @ c # u) = xs"
    using assms(1) by (induction xs) auto
  moreover have "takeWhile (\<lambda>x. x \<noteq> c) (ys @ c # v) = ys"
    using assms(2) by (induction ys) auto
  ultimately have "xs = ys" using assms(3) by simp
  with assms(3) show ?thesis by simp
qed

lemma split_at_last:
  assumes "c \<notin> set xs" and "c \<notin> set ys" and "u @ c # xs = v @ c # ys"
  shows "xs = ys \<and> u = v"
proof -
  from assms(3) have "rev (u @ c # xs) = rev (v @ c # ys)" by simp
  then have "rev xs @ c # rev u = rev ys @ c # rev v" by simp
  with assms(1,2) have "rev xs = rev ys \<and> rev u = rev v"
    by (intro split_at_first[of c]) simp_all
  then show ?thesis by simp
qed

text \<open>
  The composition separates the components only when the tenant and the API
  key hold no colon (the three demo keys hold none; the handler does not check
  the tenant).
\<close>

lemma decision_key_inject:
  assumes "CHR '':'' \<notin> set t1" and "CHR '':'' \<notin> set t2"
    and "CHR '':'' \<notin> set a1" and "CHR '':'' \<notin> set a2"
    and "decision_key t1 r1 a1 = decision_key t2 r2 a2"
  shows "t1 = t2 \<and> r1 = r2 \<and> a1 = a2"
proof -
  from assms(5) have "t1 @ CHR '':'' # (r1 @ '':'' @ a1) = t2 @ CHR '':'' # (r2 @ '':'' @ a2)"
    by (simp add: decision_key_def)
  with assms(1,2) have t: "t1 = t2" and rest: "r1 @ '':'' @ a1 = r2 @ '':'' @ a2"
    using split_at_first[of "CHR '':''" t1 t2] by blast+
  from rest have "r1 @ CHR '':'' # a1 = r2 @ CHR '':'' # a2" by simp
  with assms(3,4) have "a1 = a2 \<and> r1 = r2"
    by (rule split_at_last[of "CHR '':''"])
  with t show ?thesis by simp
qed

text \<open>
  With tenants and API keys free of colons, an admit under one decision key
  leaves the bucket of every other decision key as it was.
\<close>

lemma distinct_keys_isolated:
  assumes "CHR '':'' \<notin> set t1" and "CHR '':'' \<notin> set t2"
    and "CHR '':'' \<notin> set a1" and "CHR '':'' \<notin> set a2"
    and "(t1, r1, a1) \<noteq> (t2, r2, a2)"
  shows "snd (TokenBucketLimiter_Allow cfg st now (decision_key t1 r1 a1) cost)
           (decision_key t2 r2 a2) = st (decision_key t2 r2 a2)"
proof -
  have "decision_key t2 r2 a2 \<noteq> decision_key t1 r1 a1"
    using assms decision_key_inject[of t2 t1 a2 a1 r2 r1] by auto
  then show ?thesis by (rule TokenBucketLimiter_Allow_frame)
qed

lemma float64_between:
  "is_float a \<Longrightarrow> is_float b \<Longrightarrow> a \<le> x \<Longrightarrow> x \<le> b \<Longrightarrow> a \<le> float64 x \<and> float64 x \<le> b"
  by (simp add: float64_le float64_ge)

lemma demo_reset_99:
  "whole_seconds (fdiv (fsub 1 99) (refillPerSec demo_policy)) = - 58 * Second"
proof -
  have a: "is_float (- 471 / 8)"
    by (rule is_floatI[of "- 471" _ "- 3"]) (simp_all add: power_int_minus)
  have b: "is_float (- 58)" using is_float_int[of "- 58"] by simp
  have c: "fsub 1 99 = - 98" by (simp add: fsub_def)
  have "- 471 / 8 \<le> fdiv (fsub 1 99) (refillPerSec demo_policy)
      \<and> fdiv (fsub 1 99) (refillPerSec demo_policy) \<le> - 58"
    unfolding fdiv_def c refillPerSec_demo
    by (rule float64_between[OF a b]) simp_all
  then show ?thesis
    by (intro whole_seconds_between_neg) simp_all
qed

lemma demo_reset_98:
  "whole_seconds (fdiv (fsub 1 98) (refillPerSec demo_policy)) = - 58 * Second"
proof -
  have a: "is_float (- 471 / 8)"
    by (rule is_floatI[of "- 471" _ "- 3"]) (simp_all add: power_int_minus)
  have b: "is_float (- 58)" using is_float_int[of "- 58"] by simp
  have c: "fsub 1 98 = - 97" by (simp add: fsub_def)
  have "- 471 / 8 \<le> fdiv (fsub 1 98) (refillPerSec demo_policy)
      \<and> fdiv (fsub 1 98) (refillPerSec demo_policy) \<le> - 58"
    unfolding fdiv_def c refillPerSec_demo
    by (rule float64_between[OF a b]) simp_all
  then show ?thesis
    by (intro whole_seconds_between_neg) simp_all
qed

lemma demo_engine_first_admit:
  "TokenBucketLimiter_Allow demo_policy Map.empty now key 1
   = (\<lparr>Allowed = True, Remaining = 99, ResultLimit = 100, ResetTime = now - 58 * Second,
       RetryAfterSeconds = 0\<rparr>,
      [key \<mapsto> \<lparr>tokens = 99, lastRefill = now\<rparr>])"
  by (simp add: TokenBucketLimiter_Allow_def Let_def refill_fresh consume_def demo_eff fops
      demo_reset_99[unfolded fops, simplified] int64_of_float_numeral in_int64_def)

lemma demo_engine_second_admit:
  "TokenBucketLimiter_Allow demo_policy [key \<mapsto> \<lparr>tokens = 99, lastRefill = now\<rparr>] now key 1
   = (\<lparr>Allowed = True, Remaining = 98, ResultLimit = 100, ResetTime = now - 58 * Second,
       RetryAfterSeconds = 0\<rparr>,
      [key \<mapsto> \<lparr>tokens = 98, lastRefill = now\<rparr>])"
  using refill_same_clock[of 99 demo_policy now] is_float_int[of 99]
  by (simp add: TokenBucketLimiter_Allow_def Let_def consume_def demo_eff fops
      demo_reset_98[unfolded fops, simplified] int64_of_float_numeral in_int64_def)

lemma sec_942: "(1000 * Second - 58 * Second) div Second = 942"
  by (simp add: Second_def)

text \<open>
  C4. Two distinct decision keys, \<^verbatim>\<open>(a:b, c, test-key)\<close> and
  \<^verbatim>\<open>(a, b:c, test-key)\<close>, are composed into the same identifier and so share one
  bucket: the first admit of the second key reports 99 remaining on a fresh
  server, and 98 once the first key has been admitted.
\<close>

theorem decision_key_collision:
  "(''a:b'', ''c'', ''test-key'') \<noteq> (''a'', ''b:c'', ''test-key'')
   \<and> decision_key ''a:b'' ''c'' ''test-key'' = decision_key ''a'' ''b:c'' ''test-key''
   \<and> body (fst (handleAllow (server_with ''fast'' None) (1000 * Second) (1000 * Second)
                  (get_request ''a'' ''b:c'' ''test-key'' [])))
       = AllowedBody 99 100 942
   \<and> body (fst (handleAllow
                  (snd (handleAllow (server_with ''fast'' None) (1000 * Second) (1000 * Second)
                          (get_request ''a:b'' ''c'' ''test-key'' [])))
                  (1000 * Second) (1000 * Second)
                  (get_request ''a'' ''b:c'' ''test-key'' [])))
       = AllowedBody 98 100 942"
  by (simp add: handleAllow_def Let_def
      server_with_def get_request_def request_api_key_def demo_key_def parse_cost_def
      request_resource_def decision_key_def ForTenant_def demo_manager
      demo_engine_first_admit demo_engine_second_admit sec_942 Second_div)

subsection \<open>Strong mode and the shared store\<close>

lemma handleAllow_status:
  "status (fst (handleAllow s now u req)) \<in>
     {StatusOK, StatusBadRequest, StatusUnauthorized, StatusTooManyRequests}"
  using Limiter_Allow_err
  by (auto simp add: handleAllow_def Let_def error_response_def split_def split: option.splits)

lemma handleAllow_never_server_error:
  "status (fst (handleAllow s now u req)) \<noteq> StatusInternalServerError"
  using handleAllow_status[of s now u req]
  by (auto simp: StatusOK_def StatusBadRequest_def StatusUnauthorized_def
      StatusTooManyRequests_def StatusInternalServerError_def)

lemma handleAllow_ignores_store:
  "fst (handleAllow (s\<lparr>redisStore := r\<rparr>) now u req) = fst (handleAllow s now u req)
   \<and> snd (handleAllow (s\<lparr>redisStore := r\<rparr>) now u req)
       = (snd (handleAllow s now u req))\<lparr>redisStore := r\<rparr>"
  by (simp add: handleAllow_def Let_def split_def split: option.splits)

text \<open>
  C5. In strong mode \<open>NewServer\<close> creates the store client, but the admit
  handler asks the local manager's in-memory engine and never the store: with
  the store unreachable, a first admit for tenant \<^verbatim>\<open>acme\<close> is answered 200,
  allowed, with 99 of 100 remaining, where the claim requires a server error
  and no local allow.
\<close>

theorem strong_mode_admit_served_locally:
  "NewServer ''strong'' False = Inr (server_with ''strong'' (Some \<lparr>reachable = False\<rparr>))
   \<and> Ping \<lparr>reachable = False\<rparr> \<noteq> None
   \<and> fst (handleAllow (server_with ''strong'' (Some \<lparr>reachable = False\<rparr>))
            (1000 * Second) (1000 * Second) (get_request ''acme'' [] ''test-key'' []))
       = \<lparr>status = StatusOK,
          headers = [X_RateLimit_Limit 100, X_RateLimit_Remaining 99, X_RateLimit_Reset 942,
                     X_Helios_Mode ''strong''],
          body = AllowedBody 99 100 942\<rparr>"
  by (simp add: NewServer_def NewClientFromEnv_def Ping_def handleAllow_def Let_def
      server_with_def get_request_def request_api_key_def demo_key_def parse_cost_def
      request_resource_def decision_key_def ForTenant_def demo_manager
      demo_engine_first_admit sec_942 Second_div)

subsection \<open>Token bucket: the zero-cost probe\<close>

lemma refill_is_float: "float64 (tokens (refill cfg now entry)) = tokens (refill cfg now entry)"
  by (simp add: refill_def Let_def minFloat_def fops)

lemma refill_nonneg:
  assumes "case entry of None \<Rightarrow> True | Some b \<Rightarrow> 0 \<le> tokens b \<and> lastRefill b \<le> now"
  shows "0 \<le> tokens (refill cfg now entry)"
proof -
  have burst: "0 \<le> float64_of_int (eff_burst cfg)"
    using eff_burst_pos[of cfg] by (simp add: float64_of_int_nonneg)
  have add: "0 \<le> fadd t (fmul (Seconds (Sub now l)) (refillPerSec cfg))"
    if "0 \<le> t" and "l \<le> now" for t l
  proof -
    have "0 \<le> Seconds (Sub now l) * refillPerSec cfg"
      using Seconds_nonneg[OF Sub_nonneg[OF that(2)]] refillPerSec_pos[of cfg] by simp
    then have "0 \<le> fmul (Seconds (Sub now l)) (refillPerSec cfg)"
      by (simp add: fmul_def float64_nonneg)
    with that(1) show ?thesis by (simp add: fadd_def float64_nonneg)
  qed
  show ?thesis
  proof (cases entry)
    case None
    then show ?thesis using burst add[OF burst, of now] by (simp add: refill_def Let_def minFloat_def)
  next
    case (Some b)
    with assms have "0 \<le> tokens b" "lastRefill b \<le> now" by simp_all
    from add[OF this] Some burst show ?thesis by (simp add: refill_def Let_def minFloat_def)
  qed
qed

text \<open>
  C7 (as amended). On a key that is new, or whose bucket holds a non-negative
  token count refilled no later than \<open>now\<close>, an admit of cost 0 is allowed and
  subtracts nothing, but it does write the bucket: it stores the refilled
  token count and \<open>last_refill = now\<close> (creating the bucket when the key is
  new), exactly as \<open>GetQuota\<close> does, and reports the refilled count as
  remaining.
\<close>

theorem zero_cost_admit_refills_only:
  assumes "case st key of None \<Rightarrow> True | Some b \<Rightarrow> 0 \<le> tokens b \<and> lastRefill b \<le> now"
  shows "Allowed (fst (TokenBucketLimiter_Allow cfg st now key 0))
       \<and> RetryAfterSeconds (fst (TokenBucketLimiter_Allow cfg st now key 0)) = 0
       \<and> snd (TokenBucketLimiter_Allow cfg st now key 0) = st(key \<mapsto> refill cfg now (st key))
       \<and> Remaining (fst (TokenBucketLimiter_Allow cfg st now key 0))
           = int64_of_float (tokens (refill cfg now (st key)))
       \<and> snd (TokenBucketLimiter_Allow cfg st now key 0)
           = snd (TokenBucketLimiter_GetQuota cfg st now key)
       \<and> Remaining (fst (TokenBucketLimiter_Allow cfg st now key 0))
           = Remaining (fst (TokenBucketLimiter_GetQuota cfg st now key))"
proof -
  have nonneg: "0 \<le> tokens (refill cfg now (st key))"
    using assms by (rule refill_nonneg)
  then have c: "consume (refill cfg now (st key)) 0 = refill cfg now (st key)"
    by (simp add: consume_def float64_of_int_def fsub_def refill_is_float)
  show ?thesis
    using nonneg
    by (simp add: TokenBucketLimiter_Allow_def TokenBucketLimiter_GetQuota_def Let_def c
        float64_of_int_def)
qed

lemma Second_nonneg: "0 \<le> Second"
  by (simp add: Second_def)

lemma Seconds_6: "Seconds (6 * Second) = 6"
  using Seconds_whole[of 6] by simp

lemma demo_refill_six_seconds:
  "refill demo_policy (6 * Second) (Some \<lparr>tokens = 0, lastRefill = 0\<rparr>)
     = \<lparr>tokens = 10, lastRefill = 6 * Second\<rparr>"
proof -
  have "float64 (6 * (7505999378950827 / 4503599627370496)) = 10"
    by (subst float64_eval[of 3]) (simp_all add: rne_def Let_def power_int_minus)
  then have "fmul 6 (refillPerSec demo_policy) = 10"
    by (simp add: fmul_def refillPerSec_demo)
  moreover have "Sub (6 * Second) 0 = 6 * Second"
    by (simp add: Sub_def Second_def)
  ultimately show ?thesis
    by (simp add: refill_def Let_def Seconds_6 demo_eff fadd_def float64_of_int_def minFloat_def)
qed

theorem zero_cost_admit_refills_only_witness:
  "Allowed (fst (TokenBucketLimiter_Allow demo_policy
       [''k'' \<mapsto> \<lparr>tokens = 0, lastRefill = 0\<rparr>] (6 * Second) ''k'' 0))
   \<and> snd (TokenBucketLimiter_Allow demo_policy
       [''k'' \<mapsto> \<lparr>tokens = 0, lastRefill = 0\<rparr>] (6 * Second) ''k'' 0)
     = [''k'' \<mapsto> \<lparr>tokens = 10, lastRefill = 6 * Second\<rparr>]
   \<and> Remaining (fst (TokenBucketLimiter_Allow demo_policy
       [''k'' \<mapsto> \<lparr>tokens = 0, lastRefill = 0\<rparr>] (6 * Second) ''k'' 0)) = 10"
  using zero_cost_admit_refills_only
    [where st = "[''k'' \<mapsto> \<lparr>tokens = 0, lastRefill = 0\<rparr>]" and key = "''k''"
       and now = "6 * Second" and cfg = demo_policy]
  by (simp add: demo_refill_six_seconds int64_of_float_numeral in_int64_def Second_nonneg)

text \<open>
  The claim as stated fails: a bucket emptied at \<open>t = 0\<close> and probed with cost
  0 six seconds later holds 10 tokens and \<open>last_refill = 6 s\<close> afterwards, not
  the 0 tokens and \<open>last_refill = 0\<close> it held before the call.
\<close>

theorem zero_cost_admit_counterexample:
  "snd (TokenBucketLimiter_Allow demo_policy Map.empty 0 ''k'' 100)
     = [''k'' \<mapsto> \<lparr>tokens = 0, lastRefill = 0\<rparr>]
   \<and> snd (TokenBucketLimiter_Allow demo_policy
       [''k'' \<mapsto> \<lparr>tokens = 0, lastRefill = 0\<rparr>] (6 * Second) ''k'' 0)
     = [''k'' \<mapsto> \<lparr>tokens = 10, lastRefill = 6 * Second\<rparr>]
   \<and> [''k'' \<mapsto> \<lparr>tokens = 10, lastRefill = 6 * Second\<rparr>] ''k''
       \<noteq> [''k'' \<mapsto> \<lparr>tokens = 0, lastRefill = 0\<rparr>] ''k''"
  by (simp add: Allow_stored refill_fresh demo_refill_six_seconds consume_def demo_eff fops)

subsection \<open>Negative cost\<close>

lemma Atoi_minus5: "Atoi ''-5'' = Some (- 5)"
  by (simp add: Atoi_def Let_def is_digit_def digits_value_def in_int64_def)

lemma Atoi_nonempty: "Atoi s = Some n \<Longrightarrow> s \<noteq> []"
  by (auto simp: Atoi_def Let_def)

text \<open>
  C8 (as amended). The sign of the cost is checked by the gateway, not by the
  engine: a request whose cost parameter parses to a negative integer is
  answered with a client error and the server, its engine state included, is
  left as it was; when the tenant and the key pass their checks the answer is
  400 with the message \<^verbatim>\<open>invalid cost parameter\<close>.
\<close>

theorem handleAllow_rejects_negative_cost:
  assumes "Atoi (query_cost req) = Some n" and "n < 0"
  shows "snd (handleAllow s now u req) = s
       \<and> (status (fst (handleAllow s now u req)) = StatusBadRequest
          \<or> status (fst (handleAllow s now u req)) = StatusUnauthorized)
       \<and> (param_tenant req \<noteq> [] \<and> demo_key (request_api_key req) \<longrightarrow>
            fst (handleAllow s now u req)
              = error_response StatusBadRequest ''invalid cost parameter'')"
proof -
  from assms have ne: "query_cost req \<noteq> []"
    by (auto dest: Atoi_nonempty)
  with assms have pc: "parse_cost (query_cost req) = None"
    by (simp add: parse_cost_def)
  show ?thesis
    by (auto simp add: handleAllow_def Let_def pc error_response_def demo_key_def)
qed

theorem handleAllow_rejects_negative_cost_witness:
  "Atoi ''-5'' = Some (- 5)
   \<and> handleAllow (server_with ''fast'' None) 0 0 (get_request ''acme'' [] ''test-key'' ''-5'')
       = (error_response StatusBadRequest ''invalid cost parameter'', server_with ''fast'' None)"
  using handleAllow_rejects_negative_cost
    [of "get_request ''acme'' [] ''test-key'' ''-5''" "- 5" "server_with ''fast'' None" 0 0]
    Atoi_minus5
  by (simp add: get_request_def request_api_key_def demo_key_def prod_eq_iff)

text \<open>
  The claim as stated fails on the engine: \<open>Allow\<close> with cost \<open>-5\<close> on a fresh
  key is allowed, returns no error and leaves 105 tokens in a bucket whose
  burst is 100.
\<close>

theorem negative_cost_counterexample:
  "Allowed (fst (TokenBucketLimiter_Allow demo_policy Map.empty 0 ''k'' (- 5)))
   \<and> snd (fst (Limiter_Allow (TokenBucketLimiter demo_policy Map.empty) 0 ''k'' (- 5))) = None
   \<and> tokens (the (snd (TokenBucketLimiter_Allow demo_policy Map.empty 0 ''k'' (- 5)) ''k'')) = 105
   \<and> eff_burst demo_policy = 100"
  by (simp add: Allow_stored refill_fresh consume_def demo_eff fops Limiter_Allow_err)
    (simp add: TokenBucketLimiter_Allow_def Let_def refill_fresh demo_eff fops)

subsection \<open>Credentials\<close>

text \<open>
  C9 (as amended). A request with a tenant and a non-empty API key outside the
  fixed set of demo keys is answered 401 Unauthorized with the message
  \<^verbatim>\<open>Invalid API key\<close> and leaves the server untouched; a request without a key
  is answered with the same status and the message \<^verbatim>\<open>API key required\<close>.
\<close>

theorem handleAllow_invalid_api_key:
  assumes "param_tenant req \<noteq> []" and "request_api_key req \<noteq> []"
    and "\<not> demo_key (request_api_key req)"
  shows "handleAllow s now u req = (error_response StatusUnauthorized ''Invalid API key'', s)
       \<and> fst (handleAllow s now u (req\<lparr>header_api_key := [], query_api_key := []\<rparr>))
           = error_response StatusUnauthorized ''API key required''
       \<and> status (fst (handleAllow s now u req))
           = status (fst (handleAllow s now u (req\<lparr>header_api_key := [], query_api_key := []\<rparr>)))"
  using assms by (simp add: handleAllow_def Let_def request_api_key_def error_response_def)

theorem handleAllow_invalid_api_key_witness:
  "handleAllow (server_with ''fast'' None) 0 0 (get_request ''acme'' [] ''wrong-key'' [])
     = (error_response StatusUnauthorized ''Invalid API key'', server_with ''fast'' None)
   \<and> fst (handleAllow (server_with ''fast'' None) 0 0 (get_request ''acme'' [] [] []))
     = error_response StatusUnauthorized ''API key required''"
  using handleAllow_invalid_api_key
    [of "get_request ''acme'' [] ''wrong-key'' []" "server_with ''fast'' None" 0 0]
  by (simp add: get_request_def request_api_key_def demo_key_def)

text \<open>
  The claim as stated fails: the status for a wrong key is not 403 Forbidden,
  and it is the status of a missing key.
\<close>

theorem invalid_api_key_counterexample:
  "status (fst (handleAllow (server_with ''fast'' None) 0 0
                  (get_request ''acme'' [] ''wrong-key'' [])))
     \<noteq> StatusForbidden
   \<and> status (fst (handleAllow (server_with ''fast'' None) 0 0
                  (get_request ''acme'' [] ''wrong-key'' [])))
     = status (fst (handleAllow (server_with ''fast'' None) 0 0
                  (get_request ''acme'' [] [] [])))"
  by (simp add: handleAllow_def Let_def get_request_def request_api_key_def demo_key_def
      error_response_def StatusUnauthorized_def StatusForbidden_def)

subsection \<open>The engine behind the gateway\<close>

lemma handleAllow_served:
  assumes "limiterMgr s = \<lparr>mgr_limiter = TokenBucketLimiter c st, mgr_cfg = c'\<rparr>"
    and "param_tenant req \<noteq> []" and "demo_key (request_api_key req)"
    and "parse_cost (query_cost req) = Some cost"
  shows "handleAllow s now u req =
     (let r = TokenBucketLimiter_Allow c st now
                (decision_key (param_tenant req) (request_resource req) (request_api_key req)) cost;
          hs = [X_RateLimit_Limit (ResultLimit (fst r)), X_RateLimit_Remaining (Remaining (fst r)),
                X_RateLimit_Reset (ResetTime (fst r) div Second),
                X_Helios_Mode (ConsistencyMode s)];
          retryAfter = max 0 (int64_of_float (Seconds (Sub (ResetTime (fst r)) u)))
      in (if Allowed (fst r)
          then \<lparr>status = StatusOK, headers = hs,
                body = AllowedBody (Remaining (fst r)) (ResultLimit (fst r))
                         (ResetTime (fst r) div Second)\<rparr>
          else \<lparr>status = StatusTooManyRequests, headers = hs @ [Retry_After retryAfter],
                body = DeniedBody retryAfter\<rparr>,
          s\<lparr>limiterMgr := \<lparr>mgr_limiter = TokenBucketLimiter c (snd r), mgr_cfg = c'\<rparr>,
            reqTotal := AddUint64_1 (reqTotal s),
            reqAllowed := (if Allowed (fst r) then AddUint64_1 (reqAllowed s) else reqAllowed s),
            reqDenied := (if Allowed (fst r) then reqDenied s
                          else AddUint64_1 (reqDenied s))\<rparr>))"
proof -
  from assms(3) have ne: "request_api_key req \<noteq> []"
    by (auto simp: demo_key_def)
  show ?thesis
    using assms ne
    by (simp add: handleAllow_def Let_def ForTenant_def split_def)
qed

lemma handleQuota_served:
  assumes "limiterMgr s = \<lparr>mgr_limiter = TokenBucketLimiter c st, mgr_cfg = c'\<rparr>"
    and "param_tenant req \<noteq> []" and "demo_key (request_api_key req)"
  shows "handleQuota s now req =
     (let r = TokenBucketLimiter_Allow c st now
                (decision_key (param_tenant req) (request_resource req) (request_api_key req)) 0
      in (\<lparr>status = StatusOK, headers = [],
           body = QuotaBody (Remaining (fst r)) (ResultLimit (fst r))
                    (ResetTime (fst r) div Second)\<rparr>,
          s\<lparr>limiterMgr := \<lparr>mgr_limiter = TokenBucketLimiter c (snd r), mgr_cfg = c'\<rparr>\<rparr>))"
proof -
  from assms(3) have ne: "request_api_key req \<noteq> []"
    by (auto simp: demo_key_def)
  show ?thesis
    using assms ne
    by (simp add: handleQuota_def Let_def ForTenant_def split_def)
qed

lemma handleAllow_keeps_engine:
  assumes "limiterMgr s = \<lparr>mgr_limiter = TokenBucketLimiter c st, mgr_cfg = c'\<rparr>"
  shows "\<exists>st'. limiterMgr (snd (handleAllow s now u req))
               = \<lparr>mgr_limiter = TokenBucketLimiter c st', mgr_cfg = c'\<rparr>
             \<and> ConsistencyMode (snd (handleAllow s now u req)) = ConsistencyMode s"
  using assms
  by (auto simp add: handleAllow_def Let_def ForTenant_def split_def split: option.splits)

lemma handleQuota_keeps_engine:
  assumes "limiterMgr s = \<lparr>mgr_limiter = TokenBucketLimiter c st, mgr_cfg = c'\<rparr>"
  shows "\<exists>st'. limiterMgr (snd (handleQuota s now req))
               = \<lparr>mgr_limiter = TokenBucketLimiter c st', mgr_cfg = c'\<rparr>
             \<and> ConsistencyMode (snd (handleQuota s now req)) = ConsistencyMode s"
  using assms
  by (auto simp add: handleQuota_def Let_def ForTenant_def split_def)

lemma serve_keeps_engine:
  assumes "limiterMgr s = \<lparr>mgr_limiter = TokenBucketLimiter c st, mgr_cfg = c'\<rparr>"
  shows "\<exists>st'. limiterMgr (serve s calls)
               = \<lparr>mgr_limiter = TokenBucketLimiter c st', mgr_cfg = c'\<rparr>
             \<and> ConsistencyMode (serve s calls) = ConsistencyMode s"
  using assms
proof (induction calls arbitrary: s st)
  case Nil
  then show ?case by (simp add: serve_def)
next
  case (Cons a calls)
  have "\<exists>st'. limiterMgr (serve_call s a)
               = \<lparr>mgr_limiter = TokenBucketLimiter c st', mgr_cfg = c'\<rparr>
             \<and> ConsistencyMode (serve_call s a) = ConsistencyMode s"
    using handleAllow_keeps_engine[OF Cons.prems] handleQuota_keeps_engine[OF Cons.prems]
    by (cases a) simp_all
  then obtain st' where
    st': "limiterMgr (serve_call s a) = \<lparr>mgr_limiter = TokenBucketLimiter c st', mgr_cfg = c'\<rparr>"
    and m: "ConsistencyMode (serve_call s a) = ConsistencyMode s"
    by blast
  from Cons.IH[OF st'] m show ?case by (simp add: serve_def)
qed

lemma NewServer_built:
  "NewServer mode store_up =
     Inr (server_with mode (if mode = ''strong'' then Some \<lparr>reachable = store_up\<rparr> else None))"
  by (simp add: NewServer_def NewClientFromEnv_def)

text \<open>
  C10. The local manager ignores the tenant and the resource: \<open>ForTenant\<close> and
  \<open>GetLimiter\<close> return the manager's one engine for every argument. The server
  is built, in every consistency mode, around the token-bucket engine of the
  demo policy (limit 100, burst 100, window one minute), and after any sequence
  of admit and quota requests the manager still holds a token-bucket engine of
  that policy, with some state \<open>st\<close>, which is what \<open>ForTenant\<close> and
  \<open>GetLimiter\<close> return for every tenant and resource. A request that passes
  the handler's checks, whatever its tenant and resource, is answered by that
  engine: the reply of \<open>handleAllow\<close> (status, headers, body) is the one
  computed from the result of \<open>TokenBucketLimiter_Allow\<close> under the demo policy
  on \<open>st\<close>, the reply of \<open>handleQuota\<close> the one computed from its result at
  cost 0, and the engine the manager holds afterwards is the same engine with
  the state that call returned.
\<close>

theorem LocalManager_single_engine:
  assumes "param_tenant req \<noteq> []" and "demo_key (request_api_key req)"
    and "parse_cost (query_cost req) = Some cost"
  shows "ForTenant m t1 = ForTenant m t2
   \<and> GetLimiter m t1 r1 = GetLimiter m t2 r2
   \<and> GetLimiter m t1 r1 = (ForTenant m t2, None)
   \<and> (\<exists>s0 st. NewServer mode store_up = Inr s0
         \<and> ForTenant (limiterMgr s0) t1 = NewTokenBucketLimiter
              \<lparr>Limit = 100, Burst = 100, Window = Minute, Algorithm = AlgoTokenBucket\<rparr>
         \<and> ForTenant (limiterMgr (serve s0 calls)) t1 = TokenBucketLimiter demo_policy st
         \<and> GetLimiter (limiterMgr (serve s0 calls)) t2 r2
             = (TokenBucketLimiter demo_policy st, None)
         \<and> (let s = serve s0 calls;
                 key = decision_key (param_tenant req) (request_resource req)
                         (request_api_key req);
                 a = TokenBucketLimiter_Allow demo_policy st now key cost;
                 q = TokenBucketLimiter_Allow demo_policy st now key 0;
                 hs = [X_RateLimit_Limit (ResultLimit (fst a)),
                       X_RateLimit_Remaining (Remaining (fst a)),
                       X_RateLimit_Reset (ResetTime (fst a) div Second), X_Helios_Mode mode];
                 retryAfter = max 0 (int64_of_float (Seconds (Sub (ResetTime (fst a)) u)))
             in fst (handleAllow s now u req)
                  = (if Allowed (fst a)
                     then \<lparr>status = StatusOK, headers = hs,
                           body = AllowedBody (Remaining (fst a)) (ResultLimit (fst a))
                                    (ResetTime (fst a) div Second)\<rparr>
                     else \<lparr>status = StatusTooManyRequests,
                           headers = hs @ [Retry_After retryAfter],
                           body = DeniedBody retryAfter\<rparr>)
              \<and> limiterMgr (snd (handleAllow s now u req))
                  = \<lparr>mgr_limiter = TokenBucketLimiter demo_policy (snd a),
                     mgr_cfg = demo_policy\<rparr>
              \<and> fst (handleQuota s now req)
                  = \<lparr>status = StatusOK, headers = [],
                     body = QuotaBody (Remaining (fst q)) (ResultLimit (fst q))
                              (ResetTime (fst q) div Second)\<rparr>
              \<and> limiterMgr (snd (handleQuota s now req))
                  = \<lparr>mgr_limiter = TokenBucketLimiter demo_policy (snd q),
                     mgr_cfg = demo_policy\<rparr>))"
proof -
  define s0 where
    "s0 = server_with mode (if mode = ''strong'' then Some \<lparr>reachable = store_up\<rparr> else None)"
  have new: "NewServer mode store_up = Inr s0"
    by (simp add: s0_def NewServer_built)
  have mgr0: "limiterMgr s0
      = \<lparr>mgr_limiter = TokenBucketLimiter demo_policy Map.empty, mgr_cfg = demo_policy\<rparr>"
    and mode0: "ConsistencyMode s0 = mode"
    by (simp_all add: s0_def server_with_def demo_manager)
  have first: "ForTenant (limiterMgr s0) t1 = NewTokenBucketLimiter
      \<lparr>Limit = 100, Burst = 100, Window = Minute, Algorithm = AlgoTokenBucket\<rparr>"
    by (simp add: mgr0 ForTenant_def NewTokenBucketLimiter_def demo_policy_def)
  from serve_keeps_engine[OF mgr0, of calls] mode0 obtain st where
    mgr: "limiterMgr (serve s0 calls)
      = \<lparr>mgr_limiter = TokenBucketLimiter demo_policy st, mgr_cfg = demo_policy\<rparr>"
    and md: "ConsistencyMode (serve s0 calls) = mode"
    by auto
  have served: "ForTenant (limiterMgr (serve s0 calls)) t1 = TokenBucketLimiter demo_policy st"
    "GetLimiter (limiterMgr (serve s0 calls)) t2 r2 = (TokenBucketLimiter demo_policy st, None)"
    by (simp_all add: mgr ForTenant_def GetLimiter_def)
  have replies: "let s = serve s0 calls;
                 key = decision_key (param_tenant req) (request_resource req)
                         (request_api_key req);
                 a = TokenBucketLimiter_Allow demo_policy st now key cost;
                 q = TokenBucketLimiter_Allow demo_policy st now key 0;
                 hs = [X_RateLimit_Limit (ResultLimit (fst a)),
                       X_RateLimit_Remaining (Remaining (fst a)),
                       X_RateLimit_Reset (ResetTime (fst a) div Second), X_Helios_Mode mode];
                 retryAfter = max 0 (int64_of_float (Seconds (Sub (ResetTime (fst a)) u)))
             in fst (handleAllow s now u req)
                  = (if Allowed (fst a)
                     then \<lparr>status = StatusOK, headers = hs,
                           body = AllowedBody (Remaining (fst a)) (ResultLimit (fst a))
                                    (ResetTime (fst a) div Second)\<rparr>
                     else \<lparr>status = StatusTooManyRequests,
                           headers = hs @ [Retry_After retryAfter],
                           body = DeniedBody retryAfter\<rparr>)
              \<and> limiterMgr (snd (handleAllow s now u req))
                  = \<lparr>mgr_limiter = TokenBucketLimiter demo_policy (snd a),
                     mgr_cfg = demo_policy\<rparr>
              \<and> fst (handleQuota s now req)
                  = \<lparr>status = StatusOK, headers = [],
                     body = QuotaBody (Remaining (fst q)) (ResultLimit (fst q))
                              (ResetTime (fst q) div Second)\<rparr>
              \<and> limiterMgr (snd (handleQuota s now req))
                  = \<lparr>mgr_limiter = TokenBucketLimiter demo_policy (snd q),
                     mgr_cfg = demo_policy\<rparr>"
    by (simp add: handleAllow_served[OF mgr assms] handleQuota_served[OF mgr assms(1,2)] md
        Let_def)
  have a: "ForTenant m t1 = ForTenant m t2"
    by (simp add: ForTenant_def)
  have b: "GetLimiter m t1 r1 = GetLimiter m t2 r2"
    by (simp add: GetLimiter_def)
  have c: "GetLimiter m t1 r1 = (ForTenant m t2, None)"
    by (simp add: GetLimiter_def ForTenant_def)
  from new first served replies have
    "\<exists>s0 st. NewServer mode store_up = Inr s0
         \<and> ForTenant (limiterMgr s0) t1 = NewTokenBucketLimiter
              \<lparr>Limit = 100, Burst = 100, Window = Minute, Algorithm = AlgoTokenBucket\<rparr>
         \<and> ForTenant (limiterMgr (serve s0 calls)) t1 = TokenBucketLimiter demo_policy st
         \<and> GetLimiter (limiterMgr (serve s0 calls)) t2 r2
             = (TokenBucketLimiter demo_policy st, None)
         \<and> (let s = serve s0 calls;
                 key = decision_key (param_tenant req) (request_resource req)
                         (request_api_key req);
                 a = TokenBucketLimiter_Allow demo_policy st now key cost;
                 q = TokenBucketLimiter_Allow demo_policy st now key 0;
                 hs = [X_RateLimit_Limit (ResultLimit (fst a)),
                       X_RateLimit_Remaining (Remaining (fst a)),
                       X_RateLimit_Reset (ResetTime (fst a) div Second), X_Helios_Mode mode];
                 retryAfter = max 0 (int64_of_float (Seconds (Sub (ResetTime (fst a)) u)))
             in fst (handleAllow s now u req)
                  = (if Allowed (fst a)
                     then \<lparr>status = StatusOK, headers = hs,
                           body = AllowedBody (Remaining (fst a)) (ResultLimit (fst a))
                                    (ResetTime (fst a) div Second)\<rparr>
                     else \<lparr>status = StatusTooManyRequests,
                           headers = hs @ [Retry_After retryAfter],
                           body = DeniedBody retryAfter\<rparr>)
              \<and> limiterMgr (snd (handleAllow s now u req))
                  = \<lparr>mgr_limiter = TokenBucketLimiter demo_policy (snd a),
                     mgr_cfg = demo_policy\<rparr>
              \<and> fst (handleQuota s now req)
                  = \<lparr>status = StatusOK, headers = [],
                     body = QuotaBody (Remaining (fst q)) (ResultLimit (fst q))
                              (ResetTime (fst q) div Second)\<rparr>
              \<and> limiterMgr (snd (handleQuota s now req))
                  = \<lparr>mgr_limiter = TokenBucketLimiter demo_policy (snd q),
                     mgr_cfg = demo_policy\<rparr>)"
    by blast
  with a b c show ?thesis by blast
qed

theorem LocalManager_single_engine_witness:
  "\<exists>st. ForTenant (limiterMgr (serve (server_with ''fast'' None)
              [AllowCall 0 0 (get_request ''acme'' [] ''test-key'' [])])) ''acme''
          = TokenBucketLimiter demo_policy st
      \<and> GetLimiter (limiterMgr (serve (server_with ''fast'' None)
              [AllowCall 0 0 (get_request ''acme'' [] ''test-key'' [])])) ''vip'' ''reports''
          = (TokenBucketLimiter demo_policy st, None)
      \<and> limiterMgr (snd (handleAllow (serve (server_with ''fast'' None)
              [AllowCall 0 0 (get_request ''acme'' [] ''test-key'' [])]) 0 0
              (get_request ''vip'' ''reports'' ''test-key'' ''2'')))
          = \<lparr>mgr_limiter = TokenBucketLimiter demo_policy
               (snd (TokenBucketLimiter_Allow demo_policy st 0 ''vip:reports:test-key'' 2)),
             mgr_cfg = demo_policy\<rparr>"
proof -
  have h: "param_tenant (get_request ''vip'' ''reports'' ''test-key'' ''2'') \<noteq> []"
    "demo_key (request_api_key (get_request ''vip'' ''reports'' ''test-key'' ''2''))"
    "parse_cost (query_cost (get_request ''vip'' ''reports'' ''test-key'' ''2'')) = Some 2"
    by (simp_all add: get_request_def request_api_key_def demo_key_def parse_cost_def Atoi_def
        Let_def is_digit_def digits_value_def in_int64_def)
  have k: "decision_key (param_tenant (get_request ''vip'' ''reports'' ''test-key'' ''2''))
        (request_resource (get_request ''vip'' ''reports'' ''test-key'' ''2''))
        (request_api_key (get_request ''vip'' ''reports'' ''test-key'' ''2''))
      = ''vip:reports:test-key''"
    by (simp add: get_request_def request_api_key_def request_resource_def decision_key_def)
  have n: "NewServer ''fast'' False = Inr (server_with ''fast'' None)"
    by (simp add: NewServer_def)
  from LocalManager_single_engine[OF h, where mode = "''fast''" and store_up = False
      and m = "NewLocalManager demo_policy" and ?r1.0 = "[]"
      and ?t1.0 = "''acme''" and ?t2.0 = "''vip''" and ?r2.0 = "''reports''" and now = 0 and u = 0
      and calls = "[AllowCall 0 0 (get_request ''acme'' [] ''test-key'' [])]"]
  show ?thesis
    unfolding n k Let_def by auto
qed

subsection \<open>Sliding window\<close>

text \<open>
  Below \<open>2 ^ 23\<close> seconds the rounding of \<^verbatim>\<open>Duration.Seconds()\<close> never reaches
  the next whole second: its truncation is the whole seconds of the duration.
\<close>

lemma Seconds_floor:
  assumes "0 \<le> d" and "d < 8388608 * Second"
  shows "int64_of_float (Seconds d) = d div Second"
proof -
  define q where "q = d div Second"
  define r where "r = d mod Second"
  have "d \<le> 8388608 * Second - 1" using assms(2) by simp
  then have "d div Second \<le> (8388608 * Second - 1) div Second"
    by (rule zdiv_mono1) (simp add: Second_def)
  then have q: "0 \<le> q" "q \<le> 8388607"
    using assms(1) by (simp_all add: q_def Second_def pos_imp_zdiv_nonneg_iff)
  have "r < Second" unfolding r_def by (rule pos_mod_bound) (simp add: Second_def)
  then have r: "0 \<le> r" "r \<le> 999999999"
    by (simp_all add: r_def) (simp_all add: Second_def)
  have fq: "float64_of_int q = real_of_int q" and fr: "float64_of_int r = real_of_int r"
    using q r by (simp_all add: float64_of_int_small)
  define f where "f = fdiv (real_of_int r) 1000000000"
  have f0: "0 \<le> f"
    using r by (simp add: f_def fdiv_def float64_nonneg)
  have top: "is_float (1073741823 / 1073741824)"
    by (rule is_floatI[of 1073741823 _ "- 30"]) (simp_all add: power_int_minus)
  have "real_of_int r / 1000000000 \<le> 1073741823 / 1073741824"
    using r by simp
  then have f1: "f \<le> 1073741823 / 1073741824"
    unfolding f_def fdiv_def using top by (rule float64_le)
  have s: "Seconds d = float64 (real_of_int q + f)"
    using assms(1) by (simp add: Seconds_def go_quot_nonneg go_rem_nonneg fq[unfolded q_def]
        fr[unfolded r_def] fadd_def f_def q_def r_def)
  have lo: "real_of_int q \<le> Seconds d"
    unfolding s using f0 q by (intro float64_ge is_float_int) simp_all
  have "is_float (real_of_int (q * 1073741824 + 1073741823) * 2 powi (- 30))"
    using q by (intro is_floatI[of "q * 1073741824 + 1073741823" _ "- 30"]) simp_all
  then have up: "is_float (real_of_int q + 1073741823 / 1073741824)"
    by (simp add: power_int_minus field_simps)
  have "Seconds d \<le> real_of_int q + 1073741823 / 1073741824"
    unfolding s using f1 up by (intro float64_le) simp_all
  then have hi: "Seconds d < real_of_int q + 1" by simp
  have "in_int64 q" using q by (simp add: in_int64_def)
  from int64_of_float_between[OF lo hi q(1) this] show ?thesis by (simp add: q_def)
qed

lemma validRequests_filter:
  "validRequests (now - window) rs = filter (\<lambda>t. \<not> t \<le> now - window) rs"
  by (simp add: validRequests_def not_le)

lemma sorted_hd_Min: "sorted xs \<Longrightarrow> xs \<noteq> [] \<Longrightarrow> hd xs = Min (set xs)"
  by (cases xs) (auto simp: Min_insert2)

lemma stored_requests_upd: "stored_requests (st(key \<mapsto> \<lparr>requests = rs\<rparr>)) key = rs"
  by (simp add: stored_requests_def)

lemma SlidingWindowLimiter_Allow_unfold:
  "SlidingWindowLimiter_Allow cfg st now key cost =
     (let valid = filter (\<lambda>t. \<not> t \<le> now - eff_window cfg) (stored_requests st key) in
      if int64 (int (length valid) + cost) > eff_limit cfg
      then (\<lparr>Allowed = False,
             Remaining = maxInt64 0 (int64 (eff_limit cfg - int (length valid))),
             ResultLimit = eff_limit cfg,
             ResetTime = (case valid of [] \<Rightarrow> now + eff_window cfg
                          | oldest # _ \<Rightarrow> oldest + eff_window cfg),
             RetryAfterSeconds = int64_of_float (Seconds (Sub
                (case valid of [] \<Rightarrow> now + eff_window cfg
                  | oldest # _ \<Rightarrow> oldest + eff_window cfg) now))\<rparr>,
            st(key \<mapsto> \<lparr>requests = valid\<rparr>))
      else (\<lparr>Allowed = True,
             Remaining = int64 (int64 (eff_limit cfg - int (length valid)) - cost),
             ResultLimit = eff_limit cfg,
             ResetTime = now + eff_window cfg,
             RetryAfterSeconds = 0\<rparr>,
            st(key \<mapsto> \<lparr>requests = valid @ replicate (nat cost) now\<rparr>)))"
  by (simp add: SlidingWindowLimiter_Allow_def Let_def stored_requests_def validRequests_filter
      split: option.splits)

text \<open>
  C3 (as amended). A sliding-window admit of cost \<open>c \<ge> 0\<close> at \<open>now\<close>, on events
  stored in time order and none later than \<open>now\<close>, with \<open>|E| + c\<close> within the
  64-bit range and a window below \<open>2 ^ 23\<close> seconds. \<open>E\<close> is the list of the
  stored events not at or before \<open>now - window\<close>, in their stored order and
  with their repetitions. If \<open>|E| + c \<le> limit\<close> the admit is allowed, the
  events stored afterwards are \<open>E\<close> followed by \<open>c\<close> copies of \<open>now\<close>,
  \<open>remaining = limit - |E|\<close> after the append and \<open>reset_at = now + window\<close>.
  Otherwise it is denied, \<open>E\<close> is stored, \<open>remaining = max(0, limit - |E|)\<close>,
  \<open>reset_at = min(E) + window\<close> when \<open>E\<close> is not empty and \<open>now + window\<close>
  when it is, and \<open>retry_after_s\<close> is the number of whole seconds in
  \<open>reset_at - now\<close>: rounded down, not up.
\<close>

theorem SlidingWindowLimiter_Allow_spec:
  fixes cfg :: Config and st :: sw_state and now :: Time and key :: string and cost :: int
  defines "E \<equiv> filter (\<lambda>t. \<not> t \<le> now - eff_window cfg) (stored_requests st key)"
  defines "res \<equiv> fst (SlidingWindowLimiter_Allow cfg st now key cost)"
  defines "E' \<equiv> stored_requests (snd (SlidingWindowLimiter_Allow cfg st now key cost)) key"
  assumes "0 \<le> cost" and "in_int64 (int (length E) + cost)" and "in_int64 (Limit cfg)"
    and "sorted (stored_requests st key)"
    and "\<forall>t \<in> set (stored_requests st key). t \<le> now"
    and "eff_window cfg < 8388608 * Second"
  shows "if int (length E) + cost \<le> eff_limit cfg
         then Allowed res \<and> E' = E @ replicate (nat cost) now
              \<and> Remaining res = eff_limit cfg - int (length E')
              \<and> ResetTime res = now + eff_window cfg
              \<and> RetryAfterSeconds res = 0
         else \<not> Allowed res \<and> E' = E
              \<and> Remaining res = max 0 (eff_limit cfg - int (length E))
              \<and> ResetTime res = (if E = [] then now + eff_window cfg
                                 else Min (set E) + eff_window cfg)
              \<and> RetryAfterSeconds res = (ResetTime res - now) div Second"
proof -
  have lim: "in_int64 (eff_limit cfg)" "0 < eff_limit cfg"
    using assms(6) by (simp_all add: eff_limit_def in_int64_def)
  have sum: "int64 (int (length E) + cost) = int (length E) + cost"
    using assms(5) by (rule int64_id)
  have d1: "int64 (eff_limit cfg - int (length E)) = eff_limit cfg - int (length E)"
    using lim assms(4,5) by (intro int64_id) (simp add: in_int64_def)
  have d2: "int64 (eff_limit cfg - int (length E) - cost) = eff_limit cfg - int (length E) - cost"
    using lim assms(4,5) by (intro int64_id) (simp add: in_int64_def)
  have srt: "sorted E"
    using assms(7) by (simp add: E_def sorted_wrt_filter)
  have hdE: "E \<noteq> [] \<Longrightarrow> hd E = Min (set E)"
    using srt by (rule sorted_hd_Min)
  have w: "0 < eff_window cfg" by (rule eff_window_pos)
  have retry: "int64_of_float (Seconds (Sub (now + d) now)) = d div Second"
    if "0 \<le> d" and "d \<le> eff_window cfg" for d
  proof -
    have "d < 8388608 * Second" using that(2) assms(9) by simp
    then have "in_int64 d" using that(1) by (simp add: in_int64_def Second_def)
    then have "Sub (now + d) now = d" by (rule Sub_add)
    with Seconds_floor[OF that(1) \<open>d < 8388608 * Second\<close>] show ?thesis by simp
  qed
  show ?thesis
  proof (cases "int (length E) + cost \<le> eff_limit cfg")
    case True
    then show ?thesis
      using sum d1 d2 assms(4)
      by (simp add: res_def E'_def SlidingWindowLimiter_Allow_unfold Let_def
          E_def[symmetric] stored_requests_upd)
  next
    case False
    show ?thesis
    proof (cases E)
      case Nil
      with False sum d1 show ?thesis
        using retry[of "eff_window cfg"] w
        by (simp add: res_def E'_def SlidingWindowLimiter_Allow_unfold Let_def
          E_def[symmetric] stored_requests_upd maxInt64_def max_def)
    next
      case (Cons e es)
      with hdE have e: "Min (set E) = e" by auto
      have "e \<in> set E" using Cons by simp
      then have "now - eff_window cfg < e" and "e \<le> now"
        using assms(8) by (auto simp: E_def)
      then have "0 \<le> e + eff_window cfg - now" and "e + eff_window cfg - now \<le> eff_window cfg"
        by simp_all
      from retry[OF this]
      have r: "int64_of_float (Seconds (Sub (e + eff_window cfg) now))
          = (e + eff_window cfg - now) div Second"
        by (simp add: algebra_simps)
      from Cons False sum d1 e r show ?thesis
        by (simp add: res_def E'_def SlidingWindowLimiter_Allow_unfold Let_def
          E_def[symmetric] stored_requests_upd maxInt64_def max_def)
    qed
  qed
qed

lemma replicate_two: "replicate 2 x = [x, x]"
  by (simp add: numeral_2_eq_2)

lemma Seconds_59_5: "Seconds 59500000000 = 119 / 2"
proof -
  have "is_float (119 / 2)"
    by (rule is_floatI[of 119 _ "- 1"]) (simp_all add: power_int_minus)
  then have "float64 (119 / 2) = 119 / 2" by (rule float64_id)
  then show ?thesis
    by (simp add: Seconds_def go_quot_def go_rem_def Second_def fops)
qed

lemmas sw_eval = replicate_two SlidingWindowLimiter_Allow_unfold Let_def window_policy_def
  stored_requests_def eff_window_def eff_limit_def int64_def maxInt64_def Minute_def Second_def
  Sub_def

text \<open>
  The claim as stated fails on the retry delay: with limit 2 per minute and two
  events at \<open>t = 0\<close>, an admit at \<open>t = 0.5 s\<close> is denied with \<open>reset_at = 60 s\<close>
  and \<open>retry_after_s = 59\<close>, where the ceiling of \<open>reset_at - now = 59.5 s\<close> is 60.
\<close>

theorem sliding_window_retry_counterexample:
  "snd (SlidingWindowLimiter_Allow window_policy Map.empty 0 ''k'' 2)
     = [''k'' \<mapsto> \<lparr>requests = [0, 0]\<rparr>]
   \<and> fst (SlidingWindowLimiter_Allow window_policy [''k'' \<mapsto> \<lparr>requests = [0, 0]\<rparr>]
            500000000 ''k'' 1)
     = \<lparr>Allowed = False, Remaining = 0, ResultLimit = 2, ResetTime = 60000000000,
        RetryAfterSeconds = 59\<rparr>
   \<and> \<lceil>Seconds (60000000000 - 500000000)\<rceil> = 60"
proof -
  have a: "int64_of_float (119 / 2) = 59"
    by (rule int64_of_float_between) (simp_all add: in_int64_def)
  have b: "\<lceil>119 / 2 :: real\<rceil> = 60"
    by linarith
  show ?thesis
    by (simp add: sw_eval Seconds_59_5 a b)
qed

theorem SlidingWindowLimiter_Allow_spec_witness:
  "Allowed (fst (SlidingWindowLimiter_Allow window_policy Map.empty 0 ''k'' 2))
   \<and> stored_requests (snd (SlidingWindowLimiter_Allow window_policy Map.empty 0 ''k'' 2)) ''k''
       = [0, 0]
   \<and> Remaining (fst (SlidingWindowLimiter_Allow window_policy Map.empty 0 ''k'' 2)) = 0
   \<and> ResetTime (fst (SlidingWindowLimiter_Allow window_policy Map.empty 0 ''k'' 2)) = Minute
   \<and> \<not> Allowed (fst (SlidingWindowLimiter_Allow window_policy
            [''k'' \<mapsto> \<lparr>requests = [0, 0]\<rparr>] 500000000 ''k'' 1))
   \<and> stored_requests (snd (SlidingWindowLimiter_Allow window_policy
            [''k'' \<mapsto> \<lparr>requests = [0, 0]\<rparr>] 500000000 ''k'' 1)) ''k'' = [0, 0]
   \<and> Remaining (fst (SlidingWindowLimiter_Allow window_policy
            [''k'' \<mapsto> \<lparr>requests = [0, 0]\<rparr>] 500000000 ''k'' 1)) = 0
   \<and> ResetTime (fst (SlidingWindowLimiter_Allow window_policy
            [''k'' \<mapsto> \<lparr>requests = [0, 0]\<rparr>] 500000000 ''k'' 1)) = Minute
   \<and> RetryAfterSeconds (fst (SlidingWindowLimiter_Allow window_policy
            [''k'' \<mapsto> \<lparr>requests = [0, 0]\<rparr>] 500000000 ''k'' 1)) = 59"
proof -
  have a: "Allowed (fst (SlidingWindowLimiter_Allow window_policy Map.empty 0 ''k'' 2))
   \<and> stored_requests (snd (SlidingWindowLimiter_Allow window_policy Map.empty 0 ''k'' 2)) ''k''
       = [0, 0]
   \<and> Remaining (fst (SlidingWindowLimiter_Allow window_policy Map.empty 0 ''k'' 2)) = 0
   \<and> ResetTime (fst (SlidingWindowLimiter_Allow window_policy Map.empty 0 ''k'' 2)) = Minute"
    using SlidingWindowLimiter_Allow_spec
      [where cfg = window_policy and st = Map.empty and now = 0 and key = "''k''" and cost = 2]
    by (simp add: window_policy_def stored_requests_def eff_window_def
        eff_limit_def in_int64_def replicate_two Minute_def Second_def)
  have b: "\<not> Allowed (fst (SlidingWindowLimiter_Allow window_policy
            [''k'' \<mapsto> \<lparr>requests = [0, 0]\<rparr>] 500000000 ''k'' 1))
   \<and> stored_requests (snd (SlidingWindowLimiter_Allow window_policy
            [''k'' \<mapsto> \<lparr>requests = [0, 0]\<rparr>] 500000000 ''k'' 1)) ''k'' = [0, 0]
   \<and> Remaining (fst (SlidingWindowLimiter_Allow window_policy
            [''k'' \<mapsto> \<lparr>requests = [0, 0]\<rparr>] 500000000 ''k'' 1)) = 0
   \<and> ResetTime (fst (SlidingWindowLimiter_Allow window_policy
            [''k'' \<mapsto> \<lparr>requests = [0, 0]\<rparr>] 500000000 ''k'' 1)) = Minute
   \<and> RetryAfterSeconds (fst (SlidingWindowLimiter_Allow window_policy
            [''k'' \<mapsto> \<lparr>requests = [0, 0]\<rparr>] 500000000 ''k'' 1)) = 59"
    using SlidingWindowLimiter_Allow_spec
      [where cfg = window_policy and st = "[''k'' \<mapsto> \<lparr>requests = [0, 0]\<rparr>]"
         and now = 500000000 and key = "''k''" and cost = 1]
    by (simp add: window_policy_def stored_requests_def eff_window_def
        eff_limit_def in_int64_def Minute_def Second_def)
  from a b show ?thesis by blast
qed

subsection \<open>Token bucket: invariants\<close>

lemma bucket_ok_later: "bucket_ok cfg t b \<Longrightarrow> t \<le> now \<Longrightarrow> bucket_ok cfg now b"
  by (simp add: bucket_ok_def)

lemma refill_le_burst: "tokens (refill cfg now entry) \<le> float64_of_int (eff_burst cfg)"
  by (simp add: refill_def Let_def minFloat_def)

lemma refill_ok:
  assumes "case entry of None \<Rightarrow> True | Some b \<Rightarrow> bucket_ok cfg t b" and "t \<le> now"
    and "eff_burst cfg \<le> 9007199254740992"
  shows "bucket_ok cfg now (refill cfg now entry)"
proof -
  have "case entry of None \<Rightarrow> True | Some b \<Rightarrow> 0 \<le> tokens b \<and> lastRefill b \<le> now"
    using assms(1,2) by (auto simp: bucket_ok_def split: option.splits)
  then have "0 \<le> tokens (refill cfg now entry)" by (rule refill_nonneg)
  moreover have "float64_of_int (eff_burst cfg) = real_of_int (eff_burst cfg)"
    using assms(3) eff_burst_pos[of cfg] by (intro float64_of_int_small) simp
  ultimately show ?thesis
    using refill_le_burst[of cfg now entry] by (simp add: bucket_ok_def refill_lastRefill)
qed

lemma consume_ok:
  assumes "bucket_ok cfg now b" and "0 \<le> cost" and "eff_burst cfg \<le> 9007199254740992"
  shows "bucket_ok cfg now (consume b cost)"
proof (cases "float64_of_int cost \<le> tokens b")
  case True
  have c: "0 \<le> float64_of_int cost" using assms(2) by (rule float64_of_int_nonneg)
  have fl: "is_float (real_of_int (eff_burst cfg))"
    using assms(3) eff_burst_pos[of cfg] by (intro is_float_int) simp
  have "tokens b - float64_of_int cost \<le> real_of_int (eff_burst cfg)"
    using assms(1) c by (simp add: bucket_ok_def)
  then have "fsub (tokens b) (float64_of_int cost) \<le> real_of_int (eff_burst cfg)"
    unfolding fsub_def using fl by (rule float64_le)
  moreover have "0 \<le> fsub (tokens b) (float64_of_int cost)"
    using True by (simp add: fsub_def float64_nonneg)
  ultimately show ?thesis using True assms(1) by (simp add: consume_def bucket_ok_def)
next
  case False
  then show ?thesis using assms(1) by (simp add: consume_def)
qed

lemma tb_apply_stored:
  "tb_apply cfg st (now, x) =
     st(op_key x \<mapsto> (case x of Admit key cost \<Rightarrow> consume (refill cfg now (st key)) cost
                              | Quota key \<Rightarrow> refill cfg now (st key)))"
  by (cases x) (simp_all add: Allow_stored GetQuota_stored)

lemma tb_apply_refilled_now:
  "\<exists>b. tb_apply cfg st (now, x) (op_key x) = Some b \<and> lastRefill b = now"
  by (cases x) (simp_all add: tb_apply_stored refill_lastRefill consume_lastRefill)

lemma tb_apply_inv:
  assumes "tb_inv cfg t st" and "t \<le> now" and "op_cost_ok x"
    and "eff_burst cfg \<le> 9007199254740992"
  shows "tb_inv cfg now (tb_apply cfg st (now, x))"
proof -
  have entry: "case st (op_key x) of None \<Rightarrow> True | Some b \<Rightarrow> bucket_ok cfg t b"
    using assms(1) by (auto simp: tb_inv_def split: option.splits)
  then have r: "bucket_ok cfg now (refill cfg now (st (op_key x)))"
    using assms(2,4) by (rule refill_ok)
  have new: "bucket_ok cfg now
     (case x of Admit key cost \<Rightarrow> consume (refill cfg now (st key)) cost
              | Quota key \<Rightarrow> refill cfg now (st key))"
    using r assms(3,4) by (cases x) (simp_all add: consume_ok)
  show ?thesis
    unfolding tb_inv_def tb_apply_stored
    using new assms(1,2) by (auto simp: tb_inv_def intro: bucket_ok_later)
qed

lemma tb_apply_mono:
  assumes "tb_inv cfg t st" and "t \<le> now" and "st key = Some b"
  shows "\<exists>b'. tb_apply cfg st (now, x) key = Some b' \<and> lastRefill b \<le> lastRefill b'"
proof (cases "key = op_key x")
  case True
  from assms(1,3) have "bucket_ok cfg t b"
    by (simp add: tb_inv_def)
  with assms(2) have "lastRefill b \<le> now"
    by (simp add: bucket_ok_def)
  with True tb_apply_refilled_now[of cfg st now x] show ?thesis by auto
next
  case False
  with assms(3) show ?thesis by (simp add: tb_apply_stored)
qed

lemma tb_states_inv:
  "eff_burst cfg \<le> 9007199254740992 \<Longrightarrow> tb_inv cfg t st \<Longrightarrow> timed_ok t ops \<Longrightarrow>
   list_all2 (\<lambda>x s. tb_inv cfg (fst x) s
                \<and> (\<exists>b. s (op_key (snd x)) = Some b \<and> lastRefill b = fst x))
     ops (tb_states cfg st ops)"
proof (induction ops arbitrary: t st)
  case Nil
  then show ?case by simp
next
  case (Cons a ops)
  obtain now x where a: "a = (now, x)" by (cases a)
  from Cons.prems a have t: "t \<le> now" and c: "op_cost_ok x" and rest: "timed_ok now ops"
    by simp_all
  from Cons.prems(2) t c Cons.prems(1) have inv: "tb_inv cfg now (tb_apply cfg st (now, x))"
    by (rule tb_apply_inv)
  from Cons.IH[OF Cons.prems(1) inv rest] inv tb_apply_refilled_now[of cfg st now x] a
  show ?case by simp
qed

lemma tb_states_later:
  "eff_burst cfg \<le> 9007199254740992 \<Longrightarrow> tb_inv cfg t st \<Longrightarrow> timed_ok t ops \<Longrightarrow>
   st key = Some b \<Longrightarrow>
   y \<in> set (refill_history key (tb_states cfg st ops)) \<Longrightarrow> lastRefill b \<le> y"
proof (induction ops arbitrary: t st b)
  case Nil
  then show ?case by simp
next
  case (Cons a ops)
  obtain now x where a: "a = (now, x)" by (cases a)
  from Cons.prems a have t: "t \<le> now" and c: "op_cost_ok x" and rest: "timed_ok now ops"
    by simp_all
  from Cons.prems(2) t c Cons.prems(1) have inv: "tb_inv cfg now (tb_apply cfg st (now, x))"
    by (rule tb_apply_inv)
  from tb_apply_mono[OF Cons.prems(2) t Cons.prems(4), of x]
  obtain b' where b': "tb_apply cfg st (now, x) key = Some b'" "lastRefill b \<le> lastRefill b'"
    by blast
  from Cons.prems(5) a b'
  have "y = lastRefill b' \<or> y \<in> set (refill_history key (tb_states cfg (tb_apply cfg st (now, x)) ops))"
    by simp
  then show ?case
  proof
    assume "y = lastRefill b'"
    with b' show ?thesis by simp
  next
    assume "y \<in> set (refill_history key (tb_states cfg (tb_apply cfg st (now, x)) ops))"
    from Cons.IH[OF Cons.prems(1) inv rest b'(1) this] b'(2) show ?thesis by simp
  qed
qed

lemma tb_states_sorted:
  "eff_burst cfg \<le> 9007199254740992 \<Longrightarrow> tb_inv cfg t st \<Longrightarrow> timed_ok t ops \<Longrightarrow>
   sorted (refill_history key (st # tb_states cfg st ops))"
proof (induction ops arbitrary: t st)
  case Nil
  then show ?case by (simp split: option.splits)
next
  case (Cons a ops)
  obtain now x where a: "a = (now, x)" by (cases a)
  from Cons.prems a have t: "t \<le> now" and c: "op_cost_ok x" and rest: "timed_ok now ops"
    by simp_all
  from Cons.prems(2) t c Cons.prems(1) have inv: "tb_inv cfg now (tb_apply cfg st (now, x))"
    by (rule tb_apply_inv)
  have tail: "sorted (refill_history key (tb_states cfg st (a # ops)))"
    using Cons.IH[OF Cons.prems(1) inv rest] a by simp
  show ?case
  proof (cases "st key")
    case None
    with tail show ?thesis by simp
  next
    case (Some b)
    have "\<forall>y \<in> set (refill_history key (tb_states cfg st (a # ops))). lastRefill b \<le> y"
      using tb_states_later[OF Cons.prems(1) Cons.prems(2) Cons.prems(3) Some] by blast
    with tail Some show ?thesis by simp
  qed
qed

lemma Allow_refilled_now:
  "lastRefill (the (snd (TokenBucketLimiter_Allow cfg st now key cost) key)) = now"
  by (simp add: Allow_stored refill_lastRefill consume_lastRefill)

text \<open>The script: what it stores, and one call under a clock that has not run backwards.\<close>

lemma script_last_refill:
  "hash_last_refill (snd (TokenBucketAllow_script h now_ms limit_arg window_arg cost_arg burst_arg))
     = Some (float64_of_int now_ms)"
  by (simp add: TokenBucketAllow_script_def Let_def)

lemma script_stored:
  "snd (TokenBucketAllow_script h now_ms limit_arg window_arg cost_arg burst_arg) =
     (let tokens1 = min (fadd (case hash_tokens h of Some t \<Rightarrow> t
                                | None \<Rightarrow> float64_of_int burst_arg)
                          (fdiv (fmul (fdiv (fsub (float64_of_int now_ms)
                             (case hash_last_refill h of Some t \<Rightarrow> t
                              | None \<Rightarrow> float64_of_int now_ms)) 1000)
                             (float64_of_int limit_arg)) (float64_of_int window_arg)))
                        (float64_of_int burst_arg)
      in \<lparr>hash_tokens = Some (if float64_of_int cost_arg \<le> tokens1
                               then fsub tokens1 (float64_of_int cost_arg) else tokens1),
          hash_last_refill = Some (float64_of_int now_ms),
          hash_expire = Some (fmul (float64_of_int window_arg) 2)\<rparr>)"
  by (simp add: TokenBucketAllow_script_def Let_def)

lemma script_ok:
  assumes "hash_ok h t burst_arg" and "0 \<le> t" and "t \<le> now_ms"
    and "now_ms \<le> 9007199254740992" and "0 \<le> cost_arg" and "0 < limit_arg"
    and "0 < window_arg" and "0 \<le> burst_arg" and "burst_arg \<le> 9007199254740992"
  shows "hash_ok (snd (TokenBucketAllow_script h now_ms limit_arg window_arg cost_arg burst_arg))
           now_ms burst_arg
       \<and> hash_last_refill
           (snd (TokenBucketAllow_script h now_ms limit_arg window_arg cost_arg burst_arg))
         = Some (real_of_int now_ms)"
proof -
  have now: "float64_of_int now_ms = real_of_int now_ms"
    using assms(2,3,4) by (intro float64_of_int_small) simp
  have burst: "float64_of_int burst_arg = real_of_int burst_arg"
    using assms(8,9) by (intro float64_of_int_small) simp
  have fb: "is_float (real_of_int burst_arg)"
    using assms(8,9) by (intro is_float_int) simp
  have cost: "0 \<le> float64_of_int cost_arg"
    using assms(5) by (rule float64_of_int_nonneg)
  have lim: "0 < float64_of_int limit_arg" and win: "0 < float64_of_int window_arg"
    using assms(6,7) by (simp_all add: float64_of_int_pos)
  define tokens0 where
    "tokens0 = (case hash_tokens h of Some t \<Rightarrow> t | None \<Rightarrow> float64_of_int burst_arg)"
  define last where
    "last = (case hash_last_refill h of Some t \<Rightarrow> t | None \<Rightarrow> float64_of_int now_ms)"
  define add where
    "add = fdiv (fmul (fdiv (fsub (float64_of_int now_ms) last) 1000)
                   (float64_of_int limit_arg)) (float64_of_int window_arg)"
  define tokens1 where "tokens1 = min (fadd tokens0 add) (float64_of_int burst_arg)"
  have t0: "0 \<le> tokens0"
    using assms(1,8) by (auto simp: hash_ok_def tokens0_def burst split: option.splits)
  have "last \<le> real_of_int now_ms"
    using assms(1,3) by (auto simp: hash_ok_def last_def now split: option.splits)
  then have "0 \<le> fsub (float64_of_int now_ms) last"
    by (simp add: fsub_def now float64_nonneg)
  then have "0 \<le> fdiv (fsub (float64_of_int now_ms) last) 1000"
    by (simp add: fdiv_def float64_nonneg)
  then have "0 \<le> fmul (fdiv (fsub (float64_of_int now_ms) last) 1000) (float64_of_int limit_arg)"
    using lim by (simp add: fmul_def float64_nonneg)
  then have a: "0 \<le> add"
    using win by (simp add: add_def fdiv_def float64_nonneg)
  have m: "0 \<le> tokens1" "tokens1 \<le> real_of_int burst_arg"
    using t0 a assms(8) by (simp_all add: tokens1_def fadd_def float64_nonneg burst)
  have sub: "0 \<le> fsub tokens1 (float64_of_int cost_arg)
      \<and> fsub tokens1 (float64_of_int cost_arg) \<le> real_of_int burst_arg"
    if "float64_of_int cost_arg \<le> tokens1"
  proof -
    have "tokens1 - float64_of_int cost_arg \<le> real_of_int burst_arg"
      using m cost by simp
    then have "fsub tokens1 (float64_of_int cost_arg) \<le> real_of_int burst_arg"
      unfolding fsub_def using fb by (rule float64_le)
    then show ?thesis using that by (simp add: fsub_def float64_nonneg)
  qed
  have res: "snd (TokenBucketAllow_script h now_ms limit_arg window_arg cost_arg burst_arg)
    = \<lparr>hash_tokens = Some (if float64_of_int cost_arg \<le> tokens1
                             then fsub tokens1 (float64_of_int cost_arg) else tokens1),
       hash_last_refill = Some (float64_of_int now_ms),
       hash_expire = Some (fmul (float64_of_int window_arg) 2)\<rparr>"
    unfolding script_stored Let_def tokens1_def add_def tokens0_def last_def ..
  show ?thesis
    unfolding res using m sub by (simp add: hash_ok_def now)
qed

lemma script_states_ok:
  assumes "0 < limit_arg" and "0 < window_arg" and "0 \<le> burst_arg"
    and "burst_arg \<le> 9007199254740992"
  shows "0 \<le> t \<Longrightarrow> hash_ok h t burst_arg \<Longrightarrow> script_calls_ok t calls \<Longrightarrow>
     list_all2 (\<lambda>x h'. hash_ok h' (fst x) burst_arg
                  \<and> hash_last_refill h' = Some (real_of_int (fst x)))
       calls (script_states limit_arg window_arg burst_arg h calls)"
proof (induction calls arbitrary: t h)
  case Nil
  then show ?case by simp
next
  case (Cons a calls)
  obtain now_ms cost_arg where a: "a = (now_ms, cost_arg)" by (cases a)
  from Cons.prems(3) a have c: "t \<le> now_ms" "now_ms \<le> 9007199254740992" "0 \<le> cost_arg"
    and rest: "script_calls_ok now_ms calls"
    by simp_all
  from script_ok[OF Cons.prems(2) Cons.prems(1) c assms]
  have ok: "hash_ok (snd (TokenBucketAllow_script h now_ms limit_arg window_arg cost_arg burst_arg))
           now_ms burst_arg"
    and lr: "hash_last_refill
           (snd (TokenBucketAllow_script h now_ms limit_arg window_arg cost_arg burst_arg))
         = Some (real_of_int now_ms)"
    by simp_all
  have "0 \<le> now_ms" using Cons.prems(1) c(1) by simp
  from Cons.IH[OF this ok rest] ok lr a show ?case by simp
qed

lemma script_states_later:
  assumes "0 < limit_arg" and "0 < window_arg" and "0 \<le> burst_arg"
    and "burst_arg \<le> 9007199254740992"
  shows "0 \<le> t \<Longrightarrow> hash_ok h t burst_arg \<Longrightarrow> script_calls_ok t calls \<Longrightarrow>
     y \<in> set (hash_history (script_states limit_arg window_arg burst_arg h calls)) \<Longrightarrow>
     real_of_int t \<le> y"
proof (induction calls arbitrary: t h)
  case Nil
  then show ?case by simp
next
  case (Cons a calls)
  obtain now_ms cost_arg where a: "a = (now_ms, cost_arg)" by (cases a)
  from Cons.prems(3) a have c: "t \<le> now_ms" "now_ms \<le> 9007199254740992" "0 \<le> cost_arg"
    and rest: "script_calls_ok now_ms calls"
    by simp_all
  let ?h = "snd (TokenBucketAllow_script h now_ms limit_arg window_arg cost_arg burst_arg)"
  from script_ok[OF Cons.prems(2) Cons.prems(1) c assms]
  have ok: "hash_ok ?h now_ms burst_arg" and lr: "hash_last_refill ?h = Some (real_of_int now_ms)"
    by simp_all
  have n0: "0 \<le> now_ms" using Cons.prems(1) c(1) by simp
  from Cons.prems(4) a lr
  have "y = real_of_int now_ms
      \<or> y \<in> set (hash_history (script_states limit_arg window_arg burst_arg ?h calls))"
    by simp
  then show ?case
  proof
    assume "y = real_of_int now_ms"
    with c(1) show ?thesis by simp
  next
    assume "y \<in> set (hash_history (script_states limit_arg window_arg burst_arg ?h calls))"
    from Cons.IH[OF n0 ok rest this] c(1) show ?thesis by simp
  qed
qed

lemma script_states_sorted:
  assumes "0 < limit_arg" and "0 < window_arg" and "0 \<le> burst_arg"
    and "burst_arg \<le> 9007199254740992"
  shows "0 \<le> t \<Longrightarrow> hash_ok h t burst_arg \<Longrightarrow> script_calls_ok t calls \<Longrightarrow>
     sorted (hash_history (h # script_states limit_arg window_arg burst_arg h calls))"
proof (induction calls arbitrary: t h)
  case Nil
  then show ?case by (simp split: option.splits)
next
  case (Cons a calls)
  obtain now_ms cost_arg where a: "a = (now_ms, cost_arg)" by (cases a)
  from Cons.prems(3) a have c: "t \<le> now_ms" "now_ms \<le> 9007199254740992" "0 \<le> cost_arg"
    and rest: "script_calls_ok now_ms calls"
    by simp_all
  let ?h = "snd (TokenBucketAllow_script h now_ms limit_arg window_arg cost_arg burst_arg)"
  from script_ok[OF Cons.prems(2) Cons.prems(1) c assms]
  have ok: "hash_ok ?h now_ms burst_arg" and lr: "hash_last_refill ?h = Some (real_of_int now_ms)"
    by simp_all
  have n0: "0 \<le> now_ms" using Cons.prems(1) c(1) by simp
  have tail: "sorted (hash_history (script_states limit_arg window_arg burst_arg h (a # calls)))"
    using Cons.IH[OF n0 ok rest] a by simp
  show ?case
  proof (cases "hash_last_refill h")
    case None
    with tail show ?thesis by simp
  next
    case (Some l)
    with Cons.prems(2) have l: "l \<le> real_of_int t" by (simp add: hash_ok_def)
    have "\<forall>y \<in> set (hash_history (script_states limit_arg window_arg burst_arg h (a # calls))).
        l \<le> y"
      using script_states_later[OF assms Cons.prems(1) Cons.prems(2) Cons.prems(3)] l
      by fastforce
    with tail Some show ?thesis by simp
  qed
qed

text \<open>
  C6 (as amended). Local path: under a policy whose burst is at most \<open>2 ^ 53\<close>,
  from any engine state within the invariant (the empty engine is one), along
  any sequence of admits of non-negative cost and quota reads whose clock does
  not run backwards, after each operation every bucket holds between 0 and
  burst tokens and the bucket operated on has \<open>last_refill\<close> equal to the clock
  of the operation; the successive \<open>last_refill\<close> values of every key never
  decrease; one admit stores \<open>last_refill = now\<close> whether or not it is allowed.
  Scripted path: with positive limit and window and a burst between 0 and
  \<open>2 ^ 53\<close>, from any stored hash within its bounds, along any sequence of
  calls of non-negative cost whose millisecond clocks (between 0 and \<open>2 ^ 53\<close>)
  do not run backwards, after each call the stored tokens lie between 0 and
  burst and the stored \<open>last_refill\<close> is the clock of the call, whether the
  call allowed or denied; the successive stored \<open>last_refill\<close> values never
  decrease. Every call of the script stores its own clock as \<open>last_refill\<close>.
\<close>

theorem token_bucket_invariants:
  assumes "eff_burst cfg \<le> 9007199254740992" and "tb_inv cfg t0 st" and "timed_ok t0 ops"
    and "0 < limit_arg" and "0 < window_arg" and "0 \<le> burst_arg"
    and "burst_arg \<le> 9007199254740992"
    and "0 \<le> ms0" and "hash_ok h ms0 burst_arg" and "script_calls_ok ms0 calls"
  shows "list_all2 (\<lambda>x s. tb_inv cfg (fst x) s
                      \<and> (\<exists>b. s (op_key (snd x)) = Some b \<and> lastRefill b = fst x))
           ops (tb_states cfg st ops)
       \<and> sorted (refill_history key (st # tb_states cfg st ops))
       \<and> lastRefill (the (snd (TokenBucketLimiter_Allow cfg st' now key' cost) key')) = now
       \<and> list_all2 (\<lambda>x h'. hash_ok h' (fst x) burst_arg
                       \<and> hash_last_refill h' = Some (real_of_int (fst x)))
           calls (script_states limit_arg window_arg burst_arg h calls)
       \<and> sorted (hash_history (h # script_states limit_arg window_arg burst_arg h calls))
       \<and> hash_last_refill
           (snd (TokenBucketAllow_script h' now_ms limit_arg window_arg cost_arg burst_arg))
           = Some (float64_of_int now_ms)"
  using tb_states_inv[OF assms(1,2,3)] tb_states_sorted[OF assms(1,2,3), of key]
    Allow_refilled_now[of cfg st' now key' cost]
    script_states_ok[OF assms(4,5,6,7,8,9,10)]
    script_states_sorted[OF assms(4,5,6,7,8,9,10)]
    script_last_refill[of h' now_ms limit_arg window_arg cost_arg burst_arg]
  by blast

lemma Seconds_Second: "Seconds Second = 1"
  using Seconds_whole[of 1] by simp

lemma demo_denied_after_one_second:
  "\<not> Allowed (fst (TokenBucketLimiter_Allow demo_policy
            [''k'' \<mapsto> \<lparr>tokens = 0, lastRefill = 0\<rparr>] Second ''k'' 5))"
proof -
  have "Sub Second 0 = Second" by (simp add: Sub_def Second_def)
  moreover have "float64 (refillPerSec demo_policy) = refillPerSec demo_policy"
    by (simp add: refillPerSec_def fdiv_def)
  ultimately have "refill demo_policy Second (Some \<lparr>tokens = 0, lastRefill = 0\<rparr>)
      = \<lparr>tokens = minFloat 100 (refillPerSec demo_policy), lastRefill = Second\<rparr>"
    by (simp add: refill_def Let_def Seconds_Second demo_eff fops)
  then show ?thesis
    by (simp add: TokenBucketLimiter_Allow_def Let_def float64_of_int_def refillPerSec_demo
        minFloat_def)
qed

lemma script_denied_half_second:
  "fst (fst (TokenBucketAllow_script
         \<lparr>hash_tokens = Some 0, hash_last_refill = Some 0, hash_expire = None\<rparr> 500 5 60 1 5)) = 0"
proof -
  have a: "float64 (5 / 2) = 5 / 2"
    by (rule float64_id, rule is_floatI[of 5 _ "- 1"]) (simp_all add: power_int_minus)
  show ?thesis
    by (simp add: TokenBucketAllow_script_def Let_def fops a S2_tokens)
qed

theorem token_bucket_invariants_witness:
  "eff_burst demo_policy \<le> 9007199254740992
   \<and> tb_inv demo_policy 0 Map.empty
   \<and> timed_ok 0 [(0, Admit ''k'' 100), (Second, Admit ''k'' 5), (2 * Second, Quota ''k'')]
   \<and> hash_ok \<lparr>hash_tokens = Some 0, hash_last_refill = Some 0, hash_expire = None\<rparr> 0 5
   \<and> script_calls_ok 0 [(500, 1), (500, 0), (2000, 1)]
   \<and> \<not> Allowed (fst (TokenBucketLimiter_Allow demo_policy
            [''k'' \<mapsto> \<lparr>tokens = 0, lastRefill = 0\<rparr>] Second ''k'' 5))
   \<and> lastRefill (the (snd (TokenBucketLimiter_Allow demo_policy
            [''k'' \<mapsto> \<lparr>tokens = 0, lastRefill = 0\<rparr>] Second ''k'' 5) ''k'')) = Second
   \<and> refill_history ''k'' (Map.empty # tb_states demo_policy Map.empty
         [(0, Admit ''k'' 100), (Second, Admit ''k'' 5), (2 * Second, Quota ''k'')])
       = [0, Second, 2 * Second]
   \<and> sorted (refill_history ''k'' (Map.empty # tb_states demo_policy Map.empty
         [(0, Admit ''k'' 100), (Second, Admit ''k'' 5), (2 * Second, Quota ''k'')]))
   \<and> list_all2 (\<lambda>x s. tb_inv demo_policy (fst x) s
                      \<and> (\<exists>b. s (op_key (snd x)) = Some b \<and> lastRefill b = fst x))
        [(0, Admit ''k'' 100), (Second, Admit ''k'' 5), (2 * Second, Quota ''k'')]
        (tb_states demo_policy Map.empty
           [(0, Admit ''k'' 100), (Second, Admit ''k'' 5), (2 * Second, Quota ''k'')])
   \<and> fst (fst (TokenBucketAllow_script
         \<lparr>hash_tokens = Some 0, hash_last_refill = Some 0, hash_expire = None\<rparr> 500 5 60 1 5)) = 0
   \<and> list_all2 (\<lambda>x h'. hash_ok h' (fst x) 5 \<and> hash_last_refill h' = Some (real_of_int (fst x)))
        ([(500, 1), (500, 0), (2000, 1)] :: (int \<times> int) list)
        (script_states 5 60 5
           \<lparr>hash_tokens = Some 0, hash_last_refill = Some 0, hash_expire = None\<rparr>
           [(500, 1), (500, 0), (2000, 1)])
   \<and> sorted (hash_history
        (\<lparr>hash_tokens = Some 0, hash_last_refill = Some 0, hash_expire = None\<rparr>
         # script_states 5 60 5
             \<lparr>hash_tokens = Some 0, hash_last_refill = Some 0, hash_expire = None\<rparr>
             [(500, 1), (500, 0), (2000, 1)]))"
proof -
  let ?ops = "[(0, Admit ''k'' 100), (Second, Admit ''k'' 5), (2 * Second, Quota ''k'')]"
  let ?h = "\<lparr>hash_tokens = Some 0, hash_last_refill = Some 0, hash_expire = None\<rparr>"
  let ?calls = "[(500, 1), (500, 0), (2000 :: int, 1 :: int)]"
  have b: "eff_burst demo_policy \<le> 9007199254740992"
    by (simp add: demo_eff)
  have inv0: "tb_inv demo_policy 0 Map.empty"
    by (simp add: tb_inv_def)
  have ok: "timed_ok 0 ?ops"
    by (simp add: Second_def)
  have h: "hash_ok ?h 0 5"
    by (simp add: hash_ok_def)
  have calls: "script_calls_ok 0 ?calls"
    by simp
  have hist: "refill_history ''k'' (Map.empty # tb_states demo_policy Map.empty ?ops)
       = [0, Second, 2 * Second]"
    by (simp del: tb_apply.simps add: tb_apply_stored refill_lastRefill consume_lastRefill)
  from token_bucket_invariants[OF b inv0 ok _ _ _ _ _ h calls, where key = "''k''"
      and now = Second and st' = "[''k'' \<mapsto> \<lparr>tokens = 0, lastRefill = 0\<rparr>]" and key' = "''k''"
      and cost = 5 and limit_arg = 5 and window_arg = 60 and h' = ?h and now_ms = 500
      and cost_arg = 1]
  have "sorted (refill_history ''k'' (Map.empty # tb_states demo_policy Map.empty ?ops))
    \<and> list_all2 (\<lambda>x s. tb_inv demo_policy (fst x) s
                      \<and> (\<exists>b. s (op_key (snd x)) = Some b \<and> lastRefill b = fst x))
        ?ops (tb_states demo_policy Map.empty ?ops)
    \<and> lastRefill (the (snd (TokenBucketLimiter_Allow demo_policy
            [''k'' \<mapsto> \<lparr>tokens = 0, lastRefill = 0\<rparr>] Second ''k'' 5) ''k'')) = Second
    \<and> list_all2 (\<lambda>x h'. hash_ok h' (fst x) 5 \<and> hash_last_refill h' = Some (real_of_int (fst x)))
        ?calls (script_states 5 60 5 ?h ?calls)
    \<and> sorted (hash_history (?h # script_states 5 60 5 ?h ?calls))"
    by simp
  with b inv0 ok h calls demo_denied_after_one_second hist script_denied_half_second
  show ?thesis
    by (simp only: simp_thms)
qed

text \<open>
  The claim as stated fails on the scripted path, whose clock is the caller's
  wall clock: a hash within its bounds, written at millisecond 1000 with 0
  tokens, and a call of cost 1 from a caller whose clock reads 996 (limit 5,
  window 60 s, burst 5). The call is denied, stores a negative token count and
  moves \<open>last_refill\<close> back from 1000 to 996.
\<close>

theorem script_clock_counterexample:
  "hash_ok \<lparr>hash_tokens = Some 0, hash_last_refill = Some 1000, hash_expire = None\<rparr> 1000 5
   \<and> fst (fst (TokenBucketAllow_script
        \<lparr>hash_tokens = Some 0, hash_last_refill = Some 1000, hash_expire = None\<rparr>
        996 5 60 1 5)) = 0
   \<and> the (hash_tokens (snd (TokenBucketAllow_script
        \<lparr>hash_tokens = Some 0, hash_last_refill = Some 1000, hash_expire = None\<rparr>
        996 5 60 1 5))) < 0
   \<and> hash_last_refill (snd (TokenBucketAllow_script
        \<lparr>hash_tokens = Some 0, hash_last_refill = Some 1000, hash_expire = None\<rparr>
        996 5 60 1 5)) = Some 996
   \<and> \<not> sorted (hash_history
        [\<lparr>hash_tokens = Some 0, hash_last_refill = Some 1000, hash_expire = None\<rparr>,
         snd (TokenBucketAllow_script
           \<lparr>hash_tokens = Some 0, hash_last_refill = Some 1000, hash_expire = None\<rparr>
           996 5 60 1 5)])"
proof -
  define add where "add = fdiv (fmul (fdiv (fsub 996 1000) 1000) 5) 60"
  have "fsub 996 1000 = - 4" by (simp add: fsub_def)
  then have "fdiv (fsub 996 1000) 1000 < 0"
    by (simp add: fdiv_def float64_neg)
  then have "fmul (fdiv (fsub 996 1000) 1000) 5 < 0"
    by (simp add: fmul_def float64_neg)
  then have neg: "add < 0"
    by (simp add: add_def fdiv_def float64_neg)
  have id: "fadd 0 add = add"
    by (simp add: fadd_def add_def fdiv_def)
  show ?thesis
    using neg
    by (simp add: TokenBucketAllow_script_def Let_def float64_of_int_def hash_ok_def id
        add_def[symmetric])
qed

end
